theory Spec2Isabelle
  imports Main "HOL-Library.Word"
begin

section \<open>The SSE client of package sse: data model\<close>

text \<open>
  The sources hold two revisions of the event source: the unnamed file that declares the
  interface \<^verbatim>\<open>EventSource\<close> over the struct \<^verbatim>\<open>eventSource\<close> (it keeps the retry interval
  and the last event id in the struct), and \<^verbatim>\<open>eventsource.go\<close>, whose struct is
  \<^verbatim>\<open>EventSource\<close> (its decoder keeps the retry interval, and the request carries the
  \<^verbatim>\<open>Last-Event-ID\<close> header). Both are embedded, each in its own section: the revision
  with the struct \<^verbatim>\<open>eventSource\<close> under the names of the source, the revision of
  \<^verbatim>\<open>eventsource.go\<close> with names ending in \<open>_go\<close> where they would clash. The two structs
  share field names; where both are in scope, those of \<^verbatim>\<open>eventsource.go\<close> are written
  with the prefix \<open>EventSource.\<close>
\<close>

text \<open>
  \<^verbatim>\<open>type ReadyState byte\<close> with the constants \<^verbatim>\<open>Connecting = iota - 1\<close> (the second
  constant of its block, so 0, the zero value of the type), \<^verbatim>\<open>Open\<close>, \<^verbatim>\<open>Closing\<close>,
  \<^verbatim>\<open>Closed\<close>.
\<close>

datatype ReadyState = Connecting | Open | Closing | Closed

text \<open>
  Go errors are compared by identity in \<^verbatim>\<open>switch err\<close>: the two values the code tests for
  are constructors of their own, \<^verbatim>\<open>io.EOF\<close> is the clean end of a stream, and every other
  error value is \<open>OtherError\<close> with its message. A nil error is \<open>None\<close>.
\<close>

datatype error = ErrContentType | ErrUnexpectedEOF | EOF | OtherError string

text \<open>\<^verbatim>\<open>time.Duration\<close> is an int64 count of nanoseconds; its arithmetic wraps.\<close>

type_synonym Duration = "64 word"

definition Millisecond :: Duration where
  "Millisecond = 1000000"

definition Second :: Duration where
  "Second = 1000 * Millisecond"

definition defaultRetry :: Duration where
  "defaultRetry = 1 * Second"

definition AllowedContentType :: string where
  "AllowedContentType = ''text/event-stream''"

text \<open>
  \<^verbatim>\<open>MessageEvent\<close> of \<^verbatim>\<open>eventsource.go\<close>: its declaration is not among the sources; the
  fields are those the test helper \<^verbatim>\<open>newMessageEvent\<close> sets.
\<close>

record MessageEvent =
  LastEventID :: string
  Name :: string
  Data :: string

text \<open>
  Modelled from the spec: the decoder of \<^verbatim>\<open>eventsource.go\<close> is not among the sources.
  Its \<^verbatim>\<open>Decode\<close> yields a message or an error, and its \<^verbatim>\<open>Retry\<close> reports the retry
  interval in milliseconds, which the decoder keeps itself: a decoder is the interval
  it reports now and the results still to come, each with the interval reported once
  that result has been decoded. \<^verbatim>\<open>Decode\<close> with no result to come does not return.
\<close>

record DecoderState =
  Retry :: int
  results :: "((error + MessageEvent) \<times> int) list"

definition NewDecoder_go :: "DecoderState \<Rightarrow> DecoderState" where
  "NewDecoder_go body = body"

definition Decode_go :: "DecoderState \<Rightarrow> ((error + MessageEvent) \<times> DecoderState) option" where
  "Decode_go dec =
     (case results dec of
        [] \<Rightarrow> None
      | (r, t) # rest \<Rightarrow> Some (r, \<lparr>Retry = t, results = rest\<rparr>))"

text \<open>
  Modelled from the spec: the declaration of \<^verbatim>\<open>Event\<close> is not among the sources. The
  code reads \<^verbatim>\<open>ev.ID\<close> and \<^verbatim>\<open>ev.retry\<close> (a retry directive when \<^verbatim>\<open>ev.retry >= 0\<close>); the
  spec gives a message a name and data as well. The integer type of \<^verbatim>\<open>ev.retry\<close> is not
  known, so the field is an \<open>int\<close> and the conversion \<^verbatim>\<open>time.Duration(ev.retry)\<close> is
  \<open>word_of_int\<close>, which is what the conversion of any signed Go integer to int64 does.
\<close>

record Event =
  ID :: string
  Name :: string
  Data :: string
  retry :: int

text \<open>
  Modelled from the spec: the decoder is not among the sources. A decoder bound to a
  response body yields, one per call of \<^verbatim>\<open>Decode\<close>, an event or an error; the body of a
  response is given by the sequence of these results. \<^verbatim>\<open>Decode\<close> on the empty sequence
  does not return: the server is silent and the read blocks.
\<close>

type_synonym Decoder = "(error + Event) list"

definition NewDecoder :: "Decoder \<Rightarrow> Decoder" where
  "NewDecoder body = body"

definition Decode :: "Decoder \<Rightarrow> ((error + Event) \<times> Decoder) option" where
  "Decode dec = (case dec of [] \<Rightarrow> None | r # rest \<Rightarrow> Some (r, rest))"

text \<open>
  \<^verbatim>\<open>http.Header\<close> as a map from field names to values; \<^verbatim>\<open>Get\<close> of an absent field is
  the empty string. A response is its status code, its header and its body.
\<close>

type_synonym Header = "string \<rightharpoonup> string"

definition Header_Get :: "Header \<Rightarrow> string \<Rightarrow> string" where
  "Header_Get h k = (case h k of None \<Rightarrow> '''' | Some v \<Rightarrow> v)"

record 'b Response =
  StatusCode :: int
  Header :: Header
  Body :: 'b

record Request =
  Method :: string
  URL :: string
  ReqHeader :: Header

text \<open>
  What the world answers to one connection attempt: \<^verbatim>\<open>http.NewRequest\<close> fails (no
  request leaves), \<^verbatim>\<open>http.DefaultClient.Do\<close> fails (with or without a response), or it
  returns a response.
\<close>

datatype 'b attempt =
    NewRequestFails error
  | DoFails "'b Response option" error
  | DoReturns "'b Response"

text \<open>
  The effects on the world, in the order they happen: a sleep, a request handed to the
  HTTP client, the release of a response body, and the start of a decode task
  (\<^verbatim>\<open>go es.consume()\<close>).
\<close>

datatype 'b effect =
    Sleep Duration
  | HttpDo Request
  | BodyClose "'b Response"
  | GoConsume

text \<open>
  The unbuffered channel \<^verbatim>\<open>out\<close>: the values handed to the consumer so far (a consumer
  is taken to be receiving, so a send returns), and whether the channel is closed.
  Closing a closed channel and sending on a closed channel panic.
\<close>

record 'e chan =
  sent :: "'e list"
  closed :: bool

text \<open>
  A call returns a value, panics, or is still running when the script of the world's
  answers ends (it waits for an answer that is not given); each with the state reached.
\<close>

datatype ('a, 's) run = Returns 'a 's | Panics 's | Pending 's

fun run_state :: "('a, 's) run \<Rightarrow> 's" where
  "run_state (Returns _ s) = s"
| "run_state (Panics s) = s"
| "run_state (Pending s) = s"

section \<open>The revision of eventsource.go\<close>

text \<open>
  The struct \<^verbatim>\<open>EventSource\<close> of \<^verbatim>\<open>eventsource.go\<close>, without its mutex; \<open>trace\<close> records
  the effects performed so far. \<^verbatim>\<open>setReadyState\<close>, \<^verbatim>\<open>acquireClosingRight\<close>, \<^verbatim>\<open>Close\<close> and
  \<^verbatim>\<open>mustReconnect\<close> read as in the other revision. The type \<^verbatim>\<open>ReadyState\<close> and its
  constants are declared outside \<^verbatim>\<open>eventsource.go\<close>; they are taken from the other
  revision.
\<close>

record EventSource =
  url :: string
  lastEventID :: string
  d :: "DecoderState option"
  resp :: "DecoderState Response option"
  out :: "MessageEvent chan"
  readyState :: ReadyState
  trace :: "DecoderState effect list"

definition setReadyState_go :: "EventSource \<Rightarrow> ReadyState \<Rightarrow> EventSource" where
  "setReadyState_go es newState =
     (if readyState es = Closed then es else es\<lparr>readyState := newState\<rparr>)"

definition mustReconnect_go :: "EventSource \<Rightarrow> error option \<Rightarrow> bool" where
  "mustReconnect_go es err =
     (if err = Some ErrContentType then False
      else if err = Some ErrUnexpectedEOF then True
      else (case resp es of
              None \<Rightarrow> True
            | Some r \<Rightarrow> if StatusCode r = 204 then False else True))"

definition acquireClosingRight_go :: "EventSource \<Rightarrow> bool \<times> EventSource" where
  "acquireClosingRight_go es =
     (if readyState es = Closed \<or> readyState es = Closing then (False, es)
      else (True, es\<lparr>readyState := Closing\<rparr>))"

definition log_go :: "DecoderState effect \<Rightarrow> EventSource \<Rightarrow> EventSource" where
  "log_go e es = es\<lparr>trace := trace es @ [e]\<rparr>"

definition releaseBody_go :: "EventSource \<Rightarrow> EventSource" where
  "releaseBody_go es = (case resp es of None \<Rightarrow> es | Some r \<Rightarrow> log_go (BodyClose r) es)"

definition closeOut_go :: "EventSource \<Rightarrow> EventSource option" where
  "closeOut_go es =
     (if closed (out es) then None else Some (es\<lparr>out := (out es)\<lparr>closed := True\<rparr>\<rparr>))"

definition Close_go :: "EventSource \<Rightarrow> (unit, EventSource) run" where
  "Close_go es =
     (case acquireClosingRight_go es of
        (False, es1) \<Rightarrow> Returns () es1
      | (True, es1) \<Rightarrow>
          (case closeOut_go (releaseBody_go es1) of
             None \<Rightarrow> Panics (releaseBody_go es1)
           | Some es2 \<Rightarrow> Returns () (setReadyState_go es2 Closed)))"

definition closeWith_go :: "'a \<Rightarrow> EventSource \<Rightarrow> ('a, EventSource) run" where
  "closeWith_go v es =
     (case Close_go es of
        Returns _ es' \<Rightarrow> Returns v es'
      | Panics es' \<Rightarrow> Panics es'
      | Pending es' \<Rightarrow> Pending es')"

text \<open>
  The request of \<^verbatim>\<open>doHTTPConnect\<close>: the two fixed headers, and \<^verbatim>\<open>Last-Event-ID\<close> when
  \<^verbatim>\<open>es.lastEventID\<close> is not empty.
\<close>

definition buildRequest_go :: "EventSource \<Rightarrow> Request" where
  "buildRequest_go es =
     \<lparr>Method = ''GET'', URL = url es,
      ReqHeader =
        (if lastEventID es \<noteq> ''''
         then [''Accept'' \<mapsto> AllowedContentType, ''Cache-Control'' \<mapsto> ''no-store'',
               ''Last-Event-ID'' \<mapsto> lastEventID es]
         else [''Accept'' \<mapsto> AllowedContentType, ''Cache-Control'' \<mapsto> ''no-store''])\<rparr>"

definition doHTTPConnect ::
  "EventSource \<Rightarrow> DecoderState attempt \<Rightarrow>
     ((DecoderState Response option \<times> error) + DecoderState Response) \<times> EventSource" where
  "doHTTPConnect es a =
     (case a of
        NewRequestFails e \<Rightarrow> (Inl (None, e), es)
      | DoFails r e \<Rightarrow> (Inl (r, e), log_go (HttpDo (buildRequest_go es)) es)
      | DoReturns r \<Rightarrow>
          (if Header_Get (Header r) ''Content-Type'' \<noteq> AllowedContentType
           then (Inl (Some r, ErrContentType), log_go (HttpDo (buildRequest_go es)) es)
           else (Inr r, log_go (HttpDo (buildRequest_go es)) es)))"

definition connectOnce_go ::
  "EventSource \<Rightarrow> DecoderState attempt \<Rightarrow> error option \<times> EventSource" where
  "connectOnce_go es a =
     (case doHTTPConnect es a of
        (Inl (r, e), es1) \<Rightarrow> (Some e, es1\<lparr>resp := r\<rparr>)
      | (Inr r, es1) \<Rightarrow>
          (None, log_go GoConsume ((setReadyState_go (es1\<lparr>resp := Some r\<rparr>) Open)
                                      \<lparr>d := Some (NewDecoder_go (Body r))\<rparr>)))"

text \<open>
  \<^verbatim>\<open>connect\<close> of \<^verbatim>\<open>eventsource.go\<close> makes one attempt and closes the source when it fails.
\<close>

fun connect_go ::
  "EventSource \<Rightarrow> DecoderState attempt list \<Rightarrow> (error option, EventSource) run" where
  "connect_go es [] = Pending (setReadyState_go es Connecting)"
| "connect_go es (a # as) =
     (case connectOnce_go (setReadyState_go es Connecting) a of
        (None, es1) \<Rightarrow> Returns None es1
      | (Some e, es1) \<Rightarrow> closeWith_go (Some e) es1)"

text \<open>
  The loop of \<^verbatim>\<open>reconnect\<close> sleeps \<^verbatim>\<open>es.d.Retry()\<close> milliseconds before each attempt; with
  no decoder (\<^verbatim>\<open>es.d\<close> is nil) the call of \<^verbatim>\<open>Retry\<close> panics.
\<close>

fun reconnect_loop_go ::
  "error option \<Rightarrow> EventSource \<Rightarrow> DecoderState attempt list \<Rightarrow> (error option, EventSource) run" where
  "reconnect_loop_go err es [] =
     (if mustReconnect_go es err
      then (case d es of
              None \<Rightarrow> Panics es
            | Some dec \<Rightarrow> Pending (log_go (Sleep (word_of_int (Retry dec) * Millisecond)) es))
      else Returns err es)"
| "reconnect_loop_go err es (a # as) =
     (if mustReconnect_go es err
      then (case d es of
              None \<Rightarrow> Panics es
            | Some dec \<Rightarrow>
                (case connectOnce_go (log_go (Sleep (word_of_int (Retry dec) * Millisecond)) es) a of
                   (err', es') \<Rightarrow> reconnect_loop_go err' es' as))
      else Returns err es)"

definition reconnect_go ::
  "EventSource \<Rightarrow> DecoderState attempt list \<Rightarrow> (error option, EventSource) run" where
  "reconnect_go es as =
     (case reconnect_loop_go None (setReadyState_go es Connecting) as of
        Returns err es' \<Rightarrow> (if err \<noteq> None then closeWith_go err es' else Returns err es')
      | Panics es' \<Rightarrow> Panics es'
      | Pending es' \<Rightarrow> Pending es')"

definition newEventSource_go :: "string \<Rightarrow> EventSource" where
  "newEventSource_go u =
     \<lparr>url = u, lastEventID = '''', d = None, resp = None, out = \<lparr>sent = [], closed = False\<rparr>,
      readyState = Connecting, trace = []\<rparr>"

definition NewEventSource_go ::
  "string \<Rightarrow> DecoderState attempt list \<Rightarrow> (error option, EventSource) run" where
  "NewEventSource_go u as = connect_go (newEventSource_go u) as"

definition send_go :: "MessageEvent \<Rightarrow> EventSource \<Rightarrow> EventSource option" where
  "send_go ev es =
     (if closed (out es) then None
      else Some (es\<lparr>out := (out es)\<lparr>sent := sent (out es) @ [ev]\<rparr>\<rparr>))"

text \<open>
  \<^verbatim>\<open>consume\<close> of \<^verbatim>\<open>eventsource.go\<close>: every decoded message sets \<^verbatim>\<open>es.lastEventID\<close> to its
  \<^verbatim>\<open>LastEventID\<close> and is sent; an error ends the task as in the other revision.
\<close>

function consume_go ::
  "EventSource \<Rightarrow> DecoderState attempt list \<Rightarrow> (unit, EventSource) run" where
  "consume_go es as =
     (case d es of
        None \<Rightarrow> Panics es
      | Some dec \<Rightarrow>
          (case Decode_go dec of
             None \<Rightarrow> Pending es
           | Some (r, dec') \<Rightarrow>
               (case r of
                  Inl err \<Rightarrow>
                    (if mustReconnect_go (es\<lparr>d := Some dec'\<rparr>) (Some err)
                     then (case reconnect_go (es\<lparr>d := Some dec'\<rparr>) as of
                             Returns _ es' \<Rightarrow> closeWith_go () es'
                           | Panics es' \<Rightarrow> Panics es'
                           | Pending es' \<Rightarrow> Pending es')
                     else closeWith_go () (es\<lparr>d := Some dec'\<rparr>))
                | Inr ev \<Rightarrow>
                    (case send_go ev (es\<lparr>d := Some dec', lastEventID := LastEventID ev\<rparr>) of
                       None \<Rightarrow> Panics (es\<lparr>d := Some dec', lastEventID := LastEventID ev\<rparr>)
                     | Some es' \<Rightarrow> consume_go es' as))))"
  by pat_completeness auto
termination
  by (relation "measure (\<lambda>(es, as). case d es of None \<Rightarrow> 0 | Some dec \<Rightarrow> length (results dec))")
     (auto simp: Decode_go_def send_go_def split: list.splits if_splits)

declare consume_go.simps [simp del]

text \<open>The messages a decoder of \<^verbatim>\<open>eventsource.go\<close> yields before its first error.\<close>

fun decoded_go :: "((error + MessageEvent) \<times> int) list \<Rightarrow> MessageEvent list" where
  "decoded_go [] = []"
| "decoded_go ((Inl _, _) # _) = []"
| "decoded_go ((Inr ev, _) # rest) = ev # decoded_go rest"

section \<open>The revision with the struct eventSource\<close>

text \<open>
  The struct, without its two mutexes (each call below is one atomic step of a
  sequential run; the interleaving of concurrent calls of \<^verbatim>\<open>Close\<close> is modelled on its
  own further down) and without \<^verbatim>\<open>closeOutOnce\<close>, which no code touches. \<open>trace\<close> is
  not a field of the source: it records the effects performed so far.
\<close>

record eventSource =
  url :: string
  d :: "Decoder option"
  resp :: "Decoder Response option"
  out :: "Event chan"
  lastEventID :: string
  readyState :: ReadyState
  retry :: Duration
  trace :: "Decoder effect list"

definition ReadyState :: "eventSource \<Rightarrow> ReadyState" where
  "ReadyState es = readyState es"

definition setReadyState :: "eventSource \<Rightarrow> ReadyState \<Rightarrow> eventSource" where
  "setReadyState es newState =
     (if readyState es = Closed then es else es\<lparr>readyState := newState\<rparr>)"

definition LastEventID :: "eventSource \<Rightarrow> string" where
  "LastEventID es = lastEventID es"

definition setLastEventID :: "eventSource \<Rightarrow> string \<Rightarrow> eventSource" where
  "setLastEventID es i = es\<lparr>lastEventID := i\<rparr>"

definition mustReconnect :: "eventSource \<Rightarrow> error option \<Rightarrow> bool" where
  "mustReconnect es err =
     (if err = Some ErrContentType then False
      else if err = Some ErrUnexpectedEOF then True
      else (case resp es of
              None \<Rightarrow> True
            | Some r \<Rightarrow> if StatusCode r = 204 then False else True))"

definition acquireClosingRight :: "eventSource \<Rightarrow> bool \<times> eventSource" where
  "acquireClosingRight es =
     (if readyState es = Closed \<or> readyState es = Closing then (False, es)
      else (True, es\<lparr>readyState := Closing\<rparr>))"

definition log :: "Decoder effect \<Rightarrow> eventSource \<Rightarrow> eventSource" where
  "log e es = es\<lparr>trace := trace es @ [e]\<rparr>"

definition releaseBody :: "eventSource \<Rightarrow> eventSource" where
  "releaseBody es = (case resp es of None \<Rightarrow> es | Some r \<Rightarrow> log (BodyClose r) es)"

definition closeOut :: "eventSource \<Rightarrow> eventSource option" where
  "closeOut es =
     (if closed (out es) then None else Some (es\<lparr>out := (out es)\<lparr>closed := True\<rparr>\<rparr>))"

definition Close :: "eventSource \<Rightarrow> (unit, eventSource) run" where
  "Close es =
     (case acquireClosingRight es of
        (False, es1) \<Rightarrow> Returns () es1
      | (True, es1) \<Rightarrow>
          (case closeOut (releaseBody es1) of
             None \<Rightarrow> Panics (releaseBody es1)
           | Some es2 \<Rightarrow> Returns () (setReadyState es2 Closed)))"

text \<open>
  The request of \<^verbatim>\<open>doHttpConnect\<close>: a GET of the URL with the two headers the code
  sets. The result is the pair the source returns, written as a sum: \<open>Inl\<close> the
  response (or nil) and the error when the error is not nil, \<open>Inr\<close> the response
  otherwise.
\<close>

definition buildRequest :: "eventSource \<Rightarrow> Request" where
  "buildRequest es =
     \<lparr>Method = ''GET'', URL = url es,
      ReqHeader = [''Accept'' \<mapsto> AllowedContentType, ''Cache-Control'' \<mapsto> ''no-store'']\<rparr>"

definition doHttpConnect ::
  "eventSource \<Rightarrow> Decoder attempt \<Rightarrow>
     ((Decoder Response option \<times> error) + Decoder Response) \<times> eventSource" where
  "doHttpConnect es a =
     (case a of
        NewRequestFails e \<Rightarrow> (Inl (None, e), es)
      | DoFails r e \<Rightarrow> (Inl (r, e), log (HttpDo (buildRequest es)) es)
      | DoReturns r \<Rightarrow>
          (if Header_Get (Header r) ''Content-Type'' \<noteq> AllowedContentType
           then (Inl (Some r, ErrContentType), log (HttpDo (buildRequest es)) es)
           else (Inr r, log (HttpDo (buildRequest es)) es)))"

definition connectOnce :: "eventSource \<Rightarrow> Decoder attempt \<Rightarrow> error option \<times> eventSource" where
  "connectOnce es a =
     (case doHttpConnect es a of
        (Inl (r, e), es1) \<Rightarrow> (Some e, es1\<lparr>resp := r\<rparr>)
      | (Inr r, es1) \<Rightarrow>
          (None, log GoConsume ((setReadyState (es1\<lparr>resp := Some r\<rparr>) Open)
                                   \<lparr>d := Some (NewDecoder (Body r))\<rparr>)))"

text \<open>
  The loop of \<^verbatim>\<open>reconnect\<close>: while \<^verbatim>\<open>mustReconnect(err)\<close>, sleep \<^verbatim>\<open>es.retry\<close> and connect
  once. The script of the world's answers is consumed one per attempt; when it ends
  while the loop still wants to connect, the call is pending, after its sleep.
\<close>

fun reconnect_loop ::
  "error option \<Rightarrow> eventSource \<Rightarrow> Decoder attempt list \<Rightarrow> (error option, eventSource) run" where
  "reconnect_loop err es [] =
     (if mustReconnect es err then Pending (log (Sleep (retry es)) es) else Returns err es)"
| "reconnect_loop err es (a # as) =
     (if mustReconnect es err
      then (case connectOnce (log (Sleep (retry es)) es) a of
              (err', es') \<Rightarrow> reconnect_loop err' es' as)
      else Returns err es)"

definition closeWith :: "'a \<Rightarrow> eventSource \<Rightarrow> ('a, eventSource) run" where
  "closeWith v es =
     (case Close es of
        Returns _ es' \<Rightarrow> Returns v es'
      | Panics es' \<Rightarrow> Panics es'
      | Pending es' \<Rightarrow> Pending es')"

definition reconnect :: "eventSource \<Rightarrow> Decoder attempt list \<Rightarrow> (error option, eventSource) run" where
  "reconnect es as =
     (case reconnect_loop None (setReadyState es Connecting) as of
        Returns err es' \<Rightarrow> (if err \<noteq> None then closeWith err es' else Returns err es')
      | Panics es' \<Rightarrow> Panics es'
      | Pending es' \<Rightarrow> Pending es')"

fun connect :: "eventSource \<Rightarrow> Decoder attempt list \<Rightarrow> (error option, eventSource) run" where
  "connect es [] = Pending (setReadyState es Connecting)"
| "connect es (a # as) =
     (case connectOnce (setReadyState es Connecting) a of
        (None, es1) \<Rightarrow> Returns None es1
      | (Some e, es1) \<Rightarrow> reconnect es1 as)"

definition newEventSource :: "string \<Rightarrow> eventSource" where
  "newEventSource u =
     \<lparr>url = u, d = None, resp = None, out = \<lparr>sent = [], closed = False\<rparr>,
      lastEventID = '''', readyState = Connecting, retry = defaultRetry, trace = []\<rparr>"

definition NewEventSource :: "string \<Rightarrow> Decoder attempt list \<Rightarrow> (error option, eventSource) run" where
  "NewEventSource u as = connect (newEventSource u) as"

text \<open>
  \<^verbatim>\<open>es.out <- ev\<close>: the consumer receives the event; on a closed channel the send
  panics (\<open>None\<close>).
\<close>

definition send :: "Event \<Rightarrow> eventSource \<Rightarrow> eventSource option" where
  "send ev es =
     (if closed (out es) then None
      else Some (es\<lparr>out := (out es)\<lparr>sent := sent (out es) @ [ev]\<rparr>\<rparr>))"

text \<open>
  The decode task \<^verbatim>\<open>consume\<close>. Each turn of its loop takes the next result of the
  decoder \<^verbatim>\<open>es.d\<close>: an error ends the task (through \<^verbatim>\<open>reconnect\<close> when the error is
  classified retryable, then \<^verbatim>\<open>Close\<close>), a retry directive sets \<^verbatim>\<open>es.retry\<close> and
  continues, a message records its id when that is not empty and is sent. The script
  is that of the attempts a \<^verbatim>\<open>reconnect\<close> started by this task makes.
\<close>

function consume :: "eventSource \<Rightarrow> Decoder attempt list \<Rightarrow> (unit, eventSource) run" where
  "consume es as =
     (case d es of
        None \<Rightarrow> Panics es
      | Some dec \<Rightarrow>
          (case Decode dec of
             None \<Rightarrow> Pending es
           | Some (r, rest) \<Rightarrow>
               (case r of
                  Inl err \<Rightarrow>
                    (if mustReconnect (es\<lparr>d := Some rest\<rparr>) (Some err)
                     then (case reconnect (es\<lparr>d := Some rest\<rparr>) as of
                             Returns _ es' \<Rightarrow> closeWith () es'
                           | Panics es' \<Rightarrow> Panics es'
                           | Pending es' \<Rightarrow> Pending es')
                     else closeWith () (es\<lparr>d := Some rest\<rparr>))
                | Inr ev \<Rightarrow>
                    (if 0 \<le> Event.retry ev
                     then consume (es\<lparr>d := Some rest,
                                       retry := word_of_int (Event.retry ev) * Millisecond\<rparr>) as
                     else (case send ev (if ID ev \<noteq> ''''
                                         then setLastEventID (es\<lparr>d := Some rest\<rparr>) (ID ev)
                                         else es\<lparr>d := Some rest\<rparr>) of
                             None \<Rightarrow> Panics (if ID ev \<noteq> ''''
                                              then setLastEventID (es\<lparr>d := Some rest\<rparr>) (ID ev)
                                              else es\<lparr>d := Some rest\<rparr>)
                           | Some es' \<Rightarrow> consume es' as)))))"
  by pat_completeness auto
termination
  by (relation "measure (\<lambda>(es, as). case d es of None \<Rightarrow> 0 | Some dec \<Rightarrow> length dec)")
     (auto simp: Decode_def send_def setLastEventID_def split: list.splits if_splits)

declare consume.simps [simp del]

text \<open>
  Concurrent calls of \<^verbatim>\<open>Close\<close>, with the decode tasks running beside them. A call of
  \<^verbatim>\<open>Close\<close> goes through four steps, each atomic (the first and the last run under
  \<^verbatim>\<open>readyStateMux\<close>): \<^verbatim>\<open>acquireClosingRight\<close>, the release of the body,
  \<^verbatim>\<open>close(es.out)\<close>, and \<^verbatim>\<open>setReadyState(Closed)\<close>; a call that does not get the right has
  finished without effect. \<open>Finished True\<close> marks a call that did the teardown,
  \<open>Finished False\<close> one that did nothing, \<open>Crashed\<close> a panic.
\<close>

datatype pc = AtAcquire | AtRelease | AtCloseOut | AtSetClosed | Finished bool | Crashed

fun Close_step :: "pc \<Rightarrow> eventSource \<Rightarrow> pc \<times> eventSource" where
  "Close_step AtAcquire es =
     (case acquireClosingRight es of
        (True, es') \<Rightarrow> (AtRelease, es')
      | (False, es') \<Rightarrow> (Finished False, es'))"
| "Close_step AtRelease es = (AtCloseOut, releaseBody es)"
| "Close_step AtCloseOut es =
     (case closeOut es of None \<Rightarrow> (Crashed, es) | Some es' \<Rightarrow> (AtSetClosed, es'))"
| "Close_step AtSetClosed es = (Finished True, setReadyState es Closed)"
| "Close_step (Finished b) es = (Finished b, es)"
| "Close_step Crashed es = (Crashed, es)"

text \<open>
  The steps of a decode task, \<^verbatim>\<open>consume\<close> with the \<^verbatim>\<open>reconnect\<close> it calls: one turn of the
  decoding loop (\<open>TaskDecode\<close>; a decoded event is handled in the same step, a
  \<^verbatim>\<open>Decode\<close> with nothing to read takes no step); the classification of a decode error
  (\<open>TaskClassify\<close>); the \<^verbatim>\<open>setReadyState(Connecting)\<close> that opens \<^verbatim>\<open>reconnect\<close>
  (\<open>TaskReconnect\<close>); the test of the loop of \<^verbatim>\<open>reconnect\<close> (\<open>TaskLoop\<close>), its sleep
  (\<open>TaskSleep\<close>) and its \<^verbatim>\<open>connectOnce\<close> (\<open>TaskConnect\<close>, which takes the next answer
  of the world and, when it succeeds, starts a new decode task); the \<^verbatim>\<open>Close\<close> that
  \<^verbatim>\<open>reconnect\<close> makes when it ends with an error (\<open>TaskCloseInReconnect\<close>); and the
  \<^verbatim>\<open>Close\<close> that ends \<^verbatim>\<open>consume\<close> (\<open>TaskClose\<close>). The result of a step is the next
  position, whether a decode task is started, the state and the answers left.
\<close>

datatype tpc =
    TaskDecode
  | TaskClassify error
  | TaskReconnect
  | TaskLoop "error option"
  | TaskSleep
  | TaskConnect
  | TaskCloseInReconnect pc
  | TaskClose pc
  | TaskDone
  | TaskCrashed

fun task_step ::
  "tpc \<Rightarrow> eventSource \<Rightarrow> Decoder attempt list \<Rightarrow> tpc \<times> bool \<times> eventSource \<times> Decoder attempt list" where
  "task_step TaskDecode es as =
     (case d es of
        None \<Rightarrow> (TaskCrashed, False, es, as)
      | Some dec \<Rightarrow>
          (case Decode dec of
             None \<Rightarrow> (TaskDecode, False, es, as)
           | Some (r, rest) \<Rightarrow>
               (case r of
                  Inl err \<Rightarrow> (TaskClassify err, False, es\<lparr>d := Some rest\<rparr>, as)
                | Inr ev \<Rightarrow>
                    (if 0 \<le> Event.retry ev
                     then (TaskDecode, False,
                           es\<lparr>d := Some rest,
                              retry := word_of_int (Event.retry ev) * Millisecond\<rparr>, as)
                     else (case send ev (if ID ev \<noteq> ''''
                                         then setLastEventID (es\<lparr>d := Some rest\<rparr>) (ID ev)
                                         else es\<lparr>d := Some rest\<rparr>) of
                             None \<Rightarrow> (TaskCrashed, False,
                                      (if ID ev \<noteq> ''''
                                       then setLastEventID (es\<lparr>d := Some rest\<rparr>) (ID ev)
                                       else es\<lparr>d := Some rest\<rparr>), as)
                           | Some es' \<Rightarrow> (TaskDecode, False, es', as))))))"
| "task_step (TaskClassify err) es as =
     (if mustReconnect es (Some err) then (TaskReconnect, False, es, as)
      else (TaskClose AtAcquire, False, es, as))"
| "task_step TaskReconnect es as = (TaskLoop None, False, setReadyState es Connecting, as)"
| "task_step (TaskLoop err) es as =
     (if mustReconnect es err then (TaskSleep, False, es, as)
      else if err \<noteq> None then (TaskCloseInReconnect AtAcquire, False, es, as)
      else (TaskClose AtAcquire, False, es, as))"
| "task_step TaskSleep es as = (TaskConnect, False, log (Sleep (retry es)) es, as)"
| "task_step TaskConnect es [] = (TaskConnect, False, es, [])"
| "task_step TaskConnect es (a # as) =
     (case connectOnce es a of (err, es') \<Rightarrow> (TaskLoop err, err = None, es', as))"
| "task_step (TaskCloseInReconnect p) es as =
     (case Close_step p es of
        (Finished b, es') \<Rightarrow> (TaskClose AtAcquire, False, es', as)
      | (Crashed, es') \<Rightarrow> (TaskCrashed, False, es', as)
      | (p', es') \<Rightarrow> (TaskCloseInReconnect p', False, es', as))"
| "task_step (TaskClose p) es as =
     (case Close_step p es of
        (Finished b, es') \<Rightarrow> (TaskDone, False, es', as)
      | (Crashed, es') \<Rightarrow> (TaskCrashed, False, es', as)
      | (p', es') \<Rightarrow> (TaskClose p', False, es', as))"
| "task_step TaskDone es as = (TaskDone, False, es, as)"
| "task_step TaskCrashed es as = (TaskCrashed, False, es, as)"

text \<open>
  The threads of a running source are callers of \<^verbatim>\<open>Close\<close> and decode tasks; they share
  the state of the source and the answers of the world still to come. A schedule names
  the thread that takes the next step.
\<close>

datatype thread = Caller pc | Task tpc

record system =
  threads :: "thread list"
  source :: eventSource
  answers :: "Decoder attempt list"

definition step :: "system \<Rightarrow> nat \<Rightarrow> system" where
  "step sys i =
     (if i < length (threads sys)
      then (case threads sys ! i of
              Caller p \<Rightarrow>
                (case Close_step p (source sys) of
                   (p', es') \<Rightarrow> sys\<lparr>threads := (threads sys)[i := Caller p'], source := es'\<rparr>)
            | Task t \<Rightarrow>
                (case task_step t (source sys) (answers sys) of
                   (t', spawn, es', as') \<Rightarrow>
                     sys\<lparr>threads := (threads sys)[i := Task t'] @
                                       (if spawn then [Task TaskDecode] else []),
                         source := es', answers := as'\<rparr>))
      else sys)"

definition run_schedule :: "system \<Rightarrow> nat list \<Rightarrow> system" where
  "run_schedule sys sched = foldl step sys sched"

text \<open>\<open>n\<close> calls of \<^verbatim>\<open>Close\<close> about to start on a source that has no decode task.\<close>

definition callers :: "nat \<Rightarrow> eventSource \<Rightarrow> Decoder attempt list \<Rightarrow> system" where
  "callers n es as = \<lparr>threads = replicate n (Caller AtAcquire), source = es, answers = as\<rparr>"

definition holdsClosingRight :: "thread \<Rightarrow> bool" where
  "holdsClosingRight th =
     (th = Caller AtRelease \<or> th = Caller AtCloseOut \<or> th = Caller AtSetClosed)"

text \<open>
  A source is live when it is neither closing nor closed and its channel is open. The
  invariant of calls of \<^verbatim>\<open>Close\<close> that run with no decode task beside them: either no call
  has taken a step, or one call, the winner, is on its way through the teardown and
  every other call is still at its start or has finished without effect.
\<close>

definition live :: "eventSource \<Rightarrow> bool" where
  "live es = (readyState es \<noteq> Closing \<and> readyState es \<noteq> Closed \<and> \<not> closed (out es))"

definition winner_at :: "eventSource \<Rightarrow> thread \<Rightarrow> eventSource \<Rightarrow> bool" where
  "winner_at es th es' =
     ((th = Caller AtRelease \<and> es' = es\<lparr>readyState := Closing\<rparr>) \<or>
      (th = Caller AtCloseOut \<and> es' = releaseBody (es\<lparr>readyState := Closing\<rparr>)) \<or>
      (th = Caller AtSetClosed \<and>
         es' = (releaseBody (es\<lparr>readyState := Closing\<rparr>))\<lparr>out := (out es)\<lparr>closed := True\<rparr>\<rparr>) \<or>
      (th = Caller (Finished True) \<and> es' = run_state (Close es)))"

definition Close_inv :: "nat \<Rightarrow> eventSource \<Rightarrow> Decoder attempt list \<Rightarrow> system \<Rightarrow> bool" where
  "Close_inv n es as sys =
     (length (threads sys) = n \<and> answers sys = as \<and>
      ((\<forall>j < n. threads sys ! j = Caller AtAcquire) \<and> source sys = es \<or>
       (\<exists>w < n. winner_at es (threads sys ! w) (source sys) \<and>
          (\<forall>j < n. j \<noteq> w \<longrightarrow>
             threads sys ! j = Caller AtAcquire \<or> threads sys ! j = Caller (Finished False)))))"

section \<open>Observations on runs and traces\<close>

fun returned :: "('a, 's) run \<Rightarrow> 'a option" where
  "returned (Returns v _) = Some v"
| "returned (Panics _) = None"
| "returned (Pending _) = None"

fun pending :: "('a, 's) run \<Rightarrow> bool" where
  "pending (Pending _) = True"
| "pending (Returns _ _) = False"
| "pending (Panics _) = False"

fun is_HttpDo :: "'b effect \<Rightarrow> bool" where
  "is_HttpDo (HttpDo _) = True"
| "is_HttpDo _ = False"

text \<open>
  \<open>paced t first tr\<close>: in the effects \<open>tr\<close>, every request comes right after a sleep of
  \<open>t\<close>; when \<open>first\<close> holds, a request at the very start of \<open>tr\<close> is allowed as well.
  \<open>sleeps tr\<close> are the durations slept, in order.
\<close>

fun paced :: "Duration \<Rightarrow> bool \<Rightarrow> 'b effect list \<Rightarrow> bool" where
  "paced t first [] = True"
| "paced t first (e # tr) = ((is_HttpDo e \<longrightarrow> first) \<and> paced t (e = Sleep t) tr)"

fun sleeps :: "'b effect list \<Rightarrow> Duration list" where
  "sleeps [] = []"
| "sleeps (Sleep t # tr) = t # sleeps tr"
| "sleeps (_ # tr) = sleeps tr"

fun requests :: "'b effect list \<Rightarrow> Request list" where
  "requests [] = []"
| "requests (HttpDo r # tr) = r # requests tr"
| "requests (_ # tr) = requests tr"

fun bodyCloses :: "'b effect list \<Rightarrow> 'b Response list" where
  "bodyCloses [] = []"
| "bodyCloses (BodyClose r # tr) = r # bodyCloses tr"
| "bodyCloses (_ # tr) = bodyCloses tr"

text \<open>
  The events a decoder yields before its first error, and what the loop of \<^verbatim>\<open>consume\<close>
  is to make of them according to the spec: the messages (the events that are no retry
  directive) are delivered, the last retry directive gives the interval, and the last
  message with an id gives the last event id.
\<close>

fun decoded :: "Decoder \<Rightarrow> Event list" where
  "decoded [] = []"
| "decoded (Inl _ # _) = []"
| "decoded (Inr ev # rest) = ev # decoded rest"

definition isRetryDirective :: "Event \<Rightarrow> bool" where
  "isRetryDirective ev = (0 \<le> Event.retry ev)"

definition messages :: "Event list \<Rightarrow> Event list" where
  "messages evs = filter (\<lambda>ev. \<not> isRetryDirective ev) evs"

fun retry_after :: "Duration \<Rightarrow> Event list \<Rightarrow> Duration" where
  "retry_after t [] = t"
| "retry_after t (ev # evs) =
     retry_after (if isRetryDirective ev then word_of_int (Event.retry ev) * Millisecond else t) evs"

fun lastEventID_after :: "string \<Rightarrow> Event list \<Rightarrow> string" where
  "lastEventID_after l [] = l"
| "lastEventID_after l (ev # evs) =
     lastEventID_after (if \<not> isRetryDirective ev \<and> ID ev \<noteq> '''' then ID ev else l) evs"

text \<open>
  What the connecting calls leave alone: the events delivered, the last event id, the
  retry interval and the URL.
\<close>

definition sameDelivery :: "eventSource \<Rightarrow> eventSource \<Rightarrow> bool" where
  "sameDelivery es es' =
     (sent (out es') = sent (out es) \<and> lastEventID es' = lastEventID es \<and>
      retry es' = retry es \<and> url es' = url es)"

text \<open>
  The operations that can touch the ready state, for sequences of them: the two
  setters, \<^verbatim>\<open>Close\<close>, and the connecting and decoding calls with the scripts they meet.
\<close>

datatype operation =
    OpSetReadyState ReadyState
  | OpAcquireClosingRight
  | OpClose
  | OpSetLastEventID string
  | OpConnectOnce "Decoder attempt"
  | OpReconnect "Decoder attempt list"
  | OpConnect "Decoder attempt list"
  | OpConsume "Decoder attempt list"

fun perform :: "eventSource \<Rightarrow> operation \<Rightarrow> eventSource" where
  "perform es (OpSetReadyState s) = setReadyState es s"
| "perform es OpAcquireClosingRight = snd (acquireClosingRight es)"
| "perform es OpClose = run_state (Close es)"
| "perform es (OpSetLastEventID i) = setLastEventID es i"
| "perform es (OpConnectOnce a) = snd (connectOnce es a)"
| "perform es (OpReconnect as) = run_state (reconnect es as)"
| "perform es (OpConnect as) = run_state (connect es as)"
| "perform es (OpConsume as) = run_state (consume es as)"

section \<open>Concrete responses and events\<close>

text \<open>
  A response with the given status whose content type is \<^verbatim>\<open>text/event-stream\<close>, and one
  whose content type is \<^verbatim>\<open>text/plain\<close>; a message and a retry directive.
\<close>

definition eventStream :: "int \<Rightarrow> 'b \<Rightarrow> 'b Response" where
  "eventStream status body =
     \<lparr>StatusCode = status, Header = [''Content-Type'' \<mapsto> ''text/event-stream''], Body = body\<rparr>"

definition textPlain :: "int \<Rightarrow> 'b \<Rightarrow> 'b Response" where
  "textPlain status body =
     \<lparr>StatusCode = status, Header = [''Content-Type'' \<mapsto> ''text/plain''], Body = body\<rparr>"

definition message :: "string \<Rightarrow> string \<Rightarrow> Event" where
  "message i dat = \<lparr>ID = i, Name = '''', Data = dat, retry = - 1\<rparr>"

definition retryDirective :: "int \<Rightarrow> Event" where
  "retryDirective n = \<lparr>ID = '''', Name = '''', Data = '''', retry = n\<rparr>"

definition messageEvent :: "string \<Rightarrow> string \<Rightarrow> MessageEvent" where
  "messageEvent i dat =
     \<lparr>MessageEvent.LastEventID = i, MessageEvent.Name = '''', MessageEvent.Data = dat\<rparr>"

text \<open>
  An open source right after its first connect, whose decode task will meet a read
  error; and that source with two callers of \<^verbatim>\<open>Close\<close> and its decode task.
\<close>

definition openSource :: eventSource where
  "openSource =
     run_state (NewEventSource ''http://host/stream''
       [DoReturns (eventStream 200 [Inl (OtherError ''read on closed response body'')])])"

definition twoCallersAndTask :: system where
  "twoCallersAndTask =
     \<lparr>threads = [Caller AtAcquire, Caller AtAcquire, Task TaskDecode],
      source = openSource, answers = []\<rparr>"

section \<open>Properties\<close>

subsection \<open>Classification of failures\<close>

lemma mustReconnect_ErrContentType: "mustReconnect es (Some ErrContentType) = False"
  by (simp add: mustReconnect_def)

lemma mustReconnect_ErrUnexpectedEOF: "mustReconnect es (Some ErrUnexpectedEOF) = True"
  by (simp add: mustReconnect_def)

lemma mustReconnect_other:
  "err \<noteq> Some ErrContentType \<Longrightarrow> err \<noteq> Some ErrUnexpectedEOF \<Longrightarrow>
   mustReconnect es err = (map_option StatusCode (resp es) \<noteq> Some 204)"
  by (simp add: mustReconnect_def split: option.splits)

text \<open>
  C1, as the spec states it, fails: with a response of status 204 at hand, an
  unexpected EOF is still classified retryable, because \<^verbatim>\<open>mustReconnect\<close> decides the
  two named errors before it looks at the status.
\<close>

theorem mustReconnect_204_counterexample:
  "StatusCode (eventStream 204 ([] :: Decoder)) = 204 \<and>
   mustReconnect ((newEventSource ''http://host/stream'')\<lparr>resp := Some (eventStream 204 [])\<rparr>)
     (Some ErrUnexpectedEOF) = True"
  by (simp add: mustReconnect_def eventStream_def)

text \<open>
  C1, amended: the classification depends only on the error and on the status of the
  last response. A content-type mismatch is terminal and an unexpected EOF is
  retryable, both whatever the status; every other error (and no error) is terminal
  when the last response has status 204 and retryable otherwise.
\<close>

theorem mustReconnect_classification:
  "mustReconnect es (Some ErrContentType) = False \<and>
   mustReconnect es (Some ErrUnexpectedEOF) = True \<and>
   (err \<noteq> Some ErrContentType \<and> err \<noteq> Some ErrUnexpectedEOF \<longrightarrow>
      (map_option StatusCode (resp es) = Some 204 \<longrightarrow> mustReconnect es err = False) \<and>
      (map_option StatusCode (resp es) \<noteq> Some 204 \<longrightarrow> mustReconnect es err = True)) \<and>
   (map_option StatusCode (resp es) = map_option StatusCode (resp es') \<longrightarrow>
      mustReconnect es err = mustReconnect es' err)"
proof -
  have pure: "mustReconnect es err = mustReconnect es' err"
    if "map_option StatusCode (resp es) = map_option StatusCode (resp es')"
  proof (cases "err = Some ErrContentType \<or> err = Some ErrUnexpectedEOF")
    case True
    then show ?thesis
      by (auto simp: mustReconnect_ErrContentType mustReconnect_ErrUnexpectedEOF)
  next
    case False
    then show ?thesis
      using that by (simp add: mustReconnect_other)
  qed
  show ?thesis
    using pure
    by (simp add: mustReconnect_ErrContentType mustReconnect_ErrUnexpectedEOF mustReconnect_other)
qed

theorem mustReconnect_classification_witness:
  "Some EOF \<noteq> Some ErrContentType \<and> Some EOF \<noteq> Some ErrUnexpectedEOF \<and>
   map_option StatusCode (resp ((newEventSource ''u'')\<lparr>resp := Some (eventStream 204 [])\<rparr>)) = Some 204 \<and>
   map_option StatusCode (resp ((newEventSource ''u'')\<lparr>resp := Some (eventStream 204 [])\<rparr>)) =
     map_option StatusCode (resp ((newEventSource ''v'')\<lparr>resp := Some (textPlain 204 [])\<rparr>)) \<and>
   mustReconnect ((newEventSource ''u'')\<lparr>resp := Some (eventStream 204 [])\<rparr>) (Some EOF) = False \<and>
   mustReconnect ((newEventSource ''v'')\<lparr>resp := Some (textPlain 204 [])\<rparr>) (Some EOF) = False \<and>
   map_option StatusCode (resp (newEventSource ''u'')) \<noteq> Some 204 \<and>
   mustReconnect (newEventSource ''u'') (Some EOF) = True"
  using mustReconnect_classification
          [of "(newEventSource ''u'')\<lparr>resp := Some (eventStream 204 [])\<rparr>" "Some EOF"
              "(newEventSource ''v'')\<lparr>resp := Some (textPlain 204 [])\<rparr>"]
        mustReconnect_classification [of "newEventSource ''u''" "Some EOF" "newEventSource ''u''"]
  by (auto simp: eventStream_def textPlain_def newEventSource_def)

subsection \<open>The ready state Closed is absorbing\<close>

lemma setReadyState_Closed: "readyState es = Closed \<Longrightarrow> setReadyState es s = es"
  by (simp add: setReadyState_def)

lemma acquireClosingRight_Closed: "readyState es = Closed \<Longrightarrow> acquireClosingRight es = (False, es)"
  by (simp add: acquireClosingRight_def)

lemma Close_Closed: "readyState es = Closed \<Longrightarrow> Close es = Returns () es"
  by (simp add: Close_def acquireClosingRight_Closed)

lemma closeWith_Closed: "readyState es = Closed \<Longrightarrow> closeWith v es = Returns v es"
  by (simp add: closeWith_def Close_Closed)

lemma readyState_log [simp]: "readyState (log e es) = readyState es"
  by (simp add: log_def)

lemma connectOnce_Closed:
  "readyState es = Closed \<Longrightarrow> readyState (snd (connectOnce es a)) = Closed"
  by (auto simp: connectOnce_def doHttpConnect_def setReadyState_def split: attempt.splits)

lemma reconnect_loop_Closed:
  "readyState es = Closed \<Longrightarrow> readyState (run_state (reconnect_loop err es as)) = Closed"
proof (induction as arbitrary: err es)
  case Nil
  then show ?case by simp
next
  case (Cons a as)
  show ?case
  proof (cases "mustReconnect es err")
    case False
    then show ?thesis using Cons.prems by simp
  next
    case True
    obtain err' es' where c: "connectOnce (log (Sleep (retry es)) es) a = (err', es')"
      by (cases "connectOnce (log (Sleep (retry es)) es) a")
    have "readyState es' = Closed"
      using connectOnce_Closed [of "log (Sleep (retry es)) es" a] Cons.prems c by simp
    then show ?thesis using True c Cons.IH by simp
  qed
qed

lemma reconnect_Closed:
  "readyState es = Closed \<Longrightarrow> readyState (run_state (reconnect es as)) = Closed"
proof -
  assume a: "readyState es = Closed"
  have "readyState (run_state (reconnect_loop None (setReadyState es Connecting) as)) = Closed"
    using a by (simp add: reconnect_loop_Closed setReadyState_Closed)
  then show ?thesis
    by (cases "reconnect_loop None (setReadyState es Connecting) as")
       (auto simp: reconnect_def closeWith_Closed)
qed

lemma connect_Closed:
  "readyState es = Closed \<Longrightarrow> readyState (run_state (connect es as)) = Closed"
proof (cases as)
  case Nil
  assume "readyState es = Closed"
  then show ?thesis using Nil by (simp add: setReadyState_Closed)
next
  case (Cons a as')
  assume c: "readyState es = Closed"
  obtain err es1 where o: "connectOnce (setReadyState es Connecting) a = (err, es1)"
    by (cases "connectOnce (setReadyState es Connecting) a")
  have "readyState es1 = Closed"
    using connectOnce_Closed [of es a] c o by (simp add: setReadyState_Closed)
  then show ?thesis
    using Cons o by (cases err) (simp_all add: reconnect_Closed)
qed

lemma consume_no_decoder: "d es = None \<Longrightarrow> consume es as = Panics es"
  by (subst consume.simps) simp

lemma consume_blocked: "d es = Some [] \<Longrightarrow> consume es as = Pending es"
  by (subst consume.simps) (simp add: Decode_def)

lemma consume_error:
  "d es = Some (Inl err # rest) \<Longrightarrow>
   consume es as =
     (if mustReconnect (es\<lparr>d := Some rest\<rparr>) (Some err)
      then (case reconnect (es\<lparr>d := Some rest\<rparr>) as of
              Returns _ es' \<Rightarrow> closeWith () es'
            | Panics es' \<Rightarrow> Panics es'
            | Pending es' \<Rightarrow> Pending es')
      else closeWith () (es\<lparr>d := Some rest\<rparr>))"
  by (subst consume.simps) (simp add: Decode_def)

lemma consume_retry:
  "d es = Some (Inr ev # rest) \<Longrightarrow> 0 \<le> Event.retry ev \<Longrightarrow>
   consume es as =
     consume (es\<lparr>d := Some rest, retry := word_of_int (Event.retry ev) * Millisecond\<rparr>) as"
  by (subst consume.simps) (simp add: Decode_def)

lemma consume_message:
  "d es = Some (Inr ev # rest) \<Longrightarrow> \<not> 0 \<le> Event.retry ev \<Longrightarrow> \<not> closed (out es) \<Longrightarrow>
   consume es as =
     consume (es\<lparr>d := Some rest,
                 lastEventID := (if ID ev \<noteq> '''' then ID ev else lastEventID es),
                 out := (out es)\<lparr>sent := sent (out es) @ [ev]\<rparr>\<rparr>) as"
  by (subst consume.simps) (simp add: Decode_def send_def setLastEventID_def)

lemma consume_message_closed:
  "d es = Some (Inr ev # rest) \<Longrightarrow> \<not> 0 \<le> Event.retry ev \<Longrightarrow> closed (out es) \<Longrightarrow>
   consume es as =
     Panics (es\<lparr>d := Some rest,
                lastEventID := (if ID ev \<noteq> '''' then ID ev else lastEventID es)\<rparr>)"
  by (subst consume.simps) (simp add: Decode_def send_def setLastEventID_def)

lemma consume_cases [case_names no_decoder blocked error retry message message_closed]:
  assumes "d es = None \<Longrightarrow> P"
    and "d es = Some [] \<Longrightarrow> P"
    and "\<And>err rest. d es = Some (Inl err # rest) \<Longrightarrow> P"
    and "\<And>ev rest. d es = Some (Inr ev # rest) \<Longrightarrow> 0 \<le> Event.retry ev \<Longrightarrow> P"
    and "\<And>ev rest. d es = Some (Inr ev # rest) \<Longrightarrow> \<not> 0 \<le> Event.retry ev \<Longrightarrow>
           \<not> closed (out es) \<Longrightarrow> P"
    and "\<And>ev rest. d es = Some (Inr ev # rest) \<Longrightarrow> \<not> 0 \<le> Event.retry ev \<Longrightarrow>
           closed (out es) \<Longrightarrow> P"
  shows P
proof (cases "d es")
  case None
  then show ?thesis using assms(1) by simp
next
  case (Some dec)
  show ?thesis
  proof (cases dec)
    case Nil
    then show ?thesis using Some assms(2) by simp
  next
    case (Cons r rest)
    show ?thesis
    proof (cases r)
      case (Inl err)
      then show ?thesis using Some Cons assms(3) by simp
    next
      case (Inr ev)
      then show ?thesis using Some Cons assms(4,5,6) [of ev rest] by blast
    qed
  qed
qed

text \<open>Induction along the loop of consume: one case for each way a turn of the loop goes.\<close>

lemma consume_induct [case_names no_decoder blocked error retry message message_closed]:
  assumes "\<And>es. d es = None \<Longrightarrow> P es"
    and "\<And>es. d es = Some [] \<Longrightarrow> P es"
    and "\<And>es err rest. d es = Some (Inl err # rest) \<Longrightarrow> P es"
    and "\<And>es ev rest. d es = Some (Inr ev # rest) \<Longrightarrow> 0 \<le> Event.retry ev \<Longrightarrow>
           P (es\<lparr>d := Some rest, retry := word_of_int (Event.retry ev) * Millisecond\<rparr>) \<Longrightarrow> P es"
    and "\<And>es ev rest. d es = Some (Inr ev # rest) \<Longrightarrow> \<not> 0 \<le> Event.retry ev \<Longrightarrow>
           \<not> closed (out es) \<Longrightarrow>
           P (es\<lparr>d := Some rest,
                 lastEventID := (if ID ev \<noteq> '''' then ID ev else lastEventID es),
                 out := (out es)\<lparr>sent := sent (out es) @ [ev]\<rparr>\<rparr>) \<Longrightarrow> P es"
    and "\<And>es ev rest. d es = Some (Inr ev # rest) \<Longrightarrow> \<not> 0 \<le> Event.retry ev \<Longrightarrow>
           closed (out es) \<Longrightarrow> P es"
  shows "P es"
proof (induction "case d es of None \<Rightarrow> 0 | Some dec \<Rightarrow> length dec" arbitrary: es rule: less_induct)
  case less
  show ?case
  proof (cases es rule: consume_cases)
    case no_decoder
    then show ?thesis by (rule assms(1))
  next
    case blocked
    then show ?thesis by (rule assms(2))
  next
    case (error err rest)
    then show ?thesis by (rule assms(3))
  next
    case (retry ev rest)
    show ?thesis
      by (rule assms(4) [OF retry]) (rule less, simp add: retry)
  next
    case (message ev rest)
    show ?thesis
      by (rule assms(5) [OF message]) (rule less, simp add: message)
  next
    case (message_closed ev rest)
    then show ?thesis by (rule assms(6))
  qed
qed

lemma consume_Closed:
  "readyState es = Closed \<Longrightarrow> readyState (run_state (consume es as)) = Closed"
proof (induction es rule: consume_induct)
  case (error es err rest)
  have "readyState (run_state (reconnect (es\<lparr>d := Some rest\<rparr>) as)) = Closed"
    using error.prems by (simp add: reconnect_Closed)
  then show ?case
    using error
    by (cases "reconnect (es\<lparr>d := Some rest\<rparr>) as") (simp_all add: consume_error closeWith_Closed)
qed (simp_all add: consume_no_decoder consume_blocked consume_retry consume_message consume_message_closed)

lemma perform_Closed: "readyState es = Closed \<Longrightarrow> readyState (perform es op) = Closed"
  by (cases op)
     (simp_all add: setReadyState_Closed acquireClosingRight_Closed Close_Closed setLastEventID_def
        connectOnce_Closed reconnect_Closed connect_Closed consume_Closed)

text \<open>
  C6: once the ready state is \<open>Closed\<close>, no sequence of operations changes it: the
  setters, \<^verbatim>\<open>Close\<close>, reconnects, connects and decode tasks, whatever the world answers,
  leave it \<open>Closed\<close>, so \<^verbatim>\<open>ReadyState()\<close> returns \<open>Closed\<close> after each of them.
\<close>

theorem Closed_is_absorbing:
  "readyState es = Closed \<Longrightarrow> ReadyState (foldl perform es ops) = Closed"
proof (induction ops arbitrary: es)
  case Nil
  then show ?case by (simp add: ReadyState_def)
next
  case (Cons op ops)
  then show ?case by (simp add: perform_Closed)
qed

theorem Closed_is_absorbing_witness:
  "readyState ((newEventSource ''u'')\<lparr>readyState := Closed\<rparr>) = Closed \<and>
   ReadyState (foldl perform ((newEventSource ''u'')\<lparr>readyState := Closed\<rparr>)
     [OpSetReadyState Open, OpClose, OpReconnect [DoReturns (eventStream 200 [])],
      OpConsume [], OpSetReadyState Connecting]) = Closed"
  using Closed_is_absorbing
          [of "(newEventSource ''u'')\<lparr>readyState := Closed\<rparr>"
              "[OpSetReadyState Open, OpClose, OpReconnect [DoReturns (eventStream 200 [])],
                OpConsume [], OpSetReadyState Connecting]"]
  by simp

subsection \<open>Close\<close>




text \<open>
  The case arises in \<^verbatim>\<open>eventsource.go\<close>, whose \<^verbatim>\<open>Close\<close> reads the same: when the first
  request fails without a response, \<^verbatim>\<open>connect\<close> closes a source that holds none. The
  constructor returns the error; no body is released, the channel is closed and the
  source is \<open>Closed\<close>.
\<close>

lemma NewEventSource_go_first_request_fails:
  "returned (NewEventSource_go u (DoFails None e # as)) = Some (Some e) \<and>
   EventSource.trace (run_state (NewEventSource_go u (DoFails None e # as))) =
     [HttpDo (buildRequest_go (newEventSource_go u))] \<and>
   closed (EventSource.out (run_state (NewEventSource_go u (DoFails None e # as)))) \<and>
   EventSource.readyState (run_state (NewEventSource_go u (DoFails None e # as))) = Closed"
  by (simp add: NewEventSource_go_def newEventSource_go_def connectOnce_go_def doHTTPConnect_def
        setReadyState_go_def log_go_def closeWith_go_def Close_go_def acquireClosingRight_go_def
        releaseBody_go_def closeOut_go_def buildRequest_go_def)

subsection \<open>Construction and the reconnection loop\<close>

text \<open>
  C2 does not hold of \<^verbatim>\<open>connect\<close> in the revision with the struct \<^verbatim>\<open>eventSource\<close>:
  \<^verbatim>\<open>connect\<close> calls \<^verbatim>\<open>reconnect\<close> on every error without classifying it, and
  \<^verbatim>\<open>reconnect\<close> starts its loop from a nil error. When the first response is
  \<^verbatim>\<open>text/plain\<close> with status 200, \<^verbatim>\<open>NewEventSource\<close> does not return after the first
  attempt: it sleeps the default interval and waits for a second answer; when that is
  \<^verbatim>\<open>text/plain\<close> again it returns the content-type error, after two requests. When the
  first response is \<^verbatim>\<open>text/plain\<close> with status 204, it returns no error at all and the
  ready state stays \<open>Connecting\<close>.
\<close>

theorem NewEventSource_retries_content_type_mismatch:
  "pending (NewEventSource ''http://host/stream'' [DoReturns (textPlain 200 [])]) \<and>
   trace (run_state (NewEventSource ''http://host/stream'' [DoReturns (textPlain 200 [])])) =
     [HttpDo (buildRequest (newEventSource ''http://host/stream'')), Sleep defaultRetry] \<and>
   returned (NewEventSource ''http://host/stream''
               [DoReturns (textPlain 200 []), DoReturns (textPlain 200 [])]) =
     Some (Some ErrContentType) \<and>
   trace (run_state (NewEventSource ''http://host/stream''
               [DoReturns (textPlain 200 []), DoReturns (textPlain 200 [])])) =
     [HttpDo (buildRequest (newEventSource ''http://host/stream'')), Sleep defaultRetry,
      HttpDo (buildRequest (newEventSource ''http://host/stream'')), BodyClose (textPlain 200 [])] \<and>
   returned (NewEventSource ''http://host/stream'' [DoReturns (textPlain 204 [])]) = Some None \<and>
   readyState (run_state (NewEventSource ''http://host/stream'' [DoReturns (textPlain 204 [])])) =
     Connecting"
  by (simp add: NewEventSource_def newEventSource_def connectOnce_def doHttpConnect_def
        textPlain_def Header_Get_def AllowedContentType_def setReadyState_def log_def
        reconnect_def mustReconnect_def closeWith_def Close_def acquireClosingRight_def
        releaseBody_def closeOut_def buildRequest_def)

text \<open>
  C3 does not hold of \<^verbatim>\<open>reconnect\<close>: the loop tests \<^verbatim>\<open>mustReconnect(err)\<close> after a
  successful attempt as well, and a nil error is classified retryable unless the
  status is 204. After a refused first attempt and a successful second one (status
  200, \<^verbatim>\<open>text/event-stream\<close>), \<^verbatim>\<open>NewEventSource\<close> does not return: it sleeps again and
  waits for a third answer; when that one is \<^verbatim>\<open>text/plain\<close>, it returns the
  content-type error and the source is \<open>Closed\<close>, although an attempt had succeeded.
\<close>

theorem NewEventSource_retries_after_success:
  "pending (NewEventSource ''http://host/stream''
     [DoFails None (OtherError ''connection refused''), DoReturns (eventStream 200 [])]) \<and>
   trace (run_state (NewEventSource ''http://host/stream''
     [DoFails None (OtherError ''connection refused''), DoReturns (eventStream 200 [])])) =
     [HttpDo (buildRequest (newEventSource ''http://host/stream'')), Sleep defaultRetry,
      HttpDo (buildRequest (newEventSource ''http://host/stream'')), GoConsume, Sleep defaultRetry] \<and>
   returned (NewEventSource ''http://host/stream''
     [DoFails None (OtherError ''connection refused''), DoReturns (eventStream 200 []),
      DoReturns (textPlain 200 [])]) = Some (Some ErrContentType) \<and>
   readyState (run_state (NewEventSource ''http://host/stream''
     [DoFails None (OtherError ''connection refused''), DoReturns (eventStream 200 []),
      DoReturns (textPlain 200 [])])) = Closed"
  by (simp add: NewEventSource_def newEventSource_def connectOnce_def doHttpConnect_def
        textPlain_def eventStream_def Header_Get_def AllowedContentType_def setReadyState_def log_def
        reconnect_def mustReconnect_def closeWith_def Close_def acquireClosingRight_def
        releaseBody_def closeOut_def buildRequest_def NewDecoder_def)

text \<open>
  In general the loop returns only in a state that \<^verbatim>\<open>mustReconnect\<close> classifies
  terminal; it returns a nil error only when the last response has status 204.
\<close>

lemma reconnect_loop_returns:
  "reconnect_loop err es as = Returns e es' \<Longrightarrow> \<not> mustReconnect es' e"
proof (induction as arbitrary: err es)
  case Nil
  then show ?case by (simp split: if_splits)
next
  case (Cons a as)
  then show ?case by (auto split: if_splits prod.splits)
qed

lemma reconnect_loop_returns_nil:
  "reconnect_loop err es as = Returns None es' \<Longrightarrow> map_option StatusCode (resp es') = Some 204"
  using reconnect_loop_returns [of err es as None es']
  by (simp add: mustReconnect_def split: option.splits if_splits)

subsection \<open>The retry interval paces the reconnection loop\<close>

lemma paced_append:
  "paced t b (xs @ ys) = (paced t b xs \<and> paced t (if xs = [] then b else last xs = Sleep t) ys)"
  by (induction xs arbitrary: b) auto

lemma paced_weaken: "paced t False xs \<Longrightarrow> paced t b xs"
  by (cases xs) auto

lemma sleeps_append: "sleeps (xs @ ys) = sleeps xs @ sleeps ys"
  by (induction xs rule: sleeps.induct) auto

lemma sameDelivery_refl: "sameDelivery es es"
  by (simp add: sameDelivery_def)

lemma sameDelivery_trans: "sameDelivery a b \<Longrightarrow> sameDelivery b c \<Longrightarrow> sameDelivery a c"
  by (simp add: sameDelivery_def)

lemma sameDelivery_log: "sameDelivery es (log e es)"
  by (simp add: sameDelivery_def log_def)

lemma sameDelivery_setReadyState: "sameDelivery es (setReadyState es s)"
  by (simp add: sameDelivery_def setReadyState_def)

text \<open>One attempt adds at most a request and the start of a decode task to the trace.\<close>

lemma connectOnce_trace:
  "\<exists>X. trace (snd (connectOnce es a)) = trace es @ X \<and> paced t True X \<and> sleeps X = [] \<and>
       bodyCloses X = [] \<and> (X \<noteq> [] \<longrightarrow> last X \<noteq> Sleep t)"
  by (cases a) (auto simp: connectOnce_def doHttpConnect_def log_def setReadyState_def)

lemma connectOnce_sameDelivery: "sameDelivery es (snd (connectOnce es a))"
  by (cases a) (auto simp: connectOnce_def doHttpConnect_def log_def setReadyState_def sameDelivery_def)

lemma Close_trace:
  "\<exists>Y. trace (run_state (Close es)) = trace es @ Y \<and> paced t False Y \<and> sleeps Y = []"
  by (auto simp: Close_def acquireClosingRight_def releaseBody_def closeOut_def log_def
        setReadyState_def split: option.splits)

lemma Close_sameDelivery: "sameDelivery es (run_state (Close es))"
  by (auto simp: Close_def acquireClosingRight_def releaseBody_def closeOut_def log_def
        setReadyState_def sameDelivery_def split: option.splits)

lemma run_state_closeWith: "run_state (closeWith v es) = run_state (Close es)"
  by (cases "Close es") (simp_all add: closeWith_def)

lemma reconnect_loop_trace:
  "\<exists>X. trace (run_state (reconnect_loop err es as)) = trace es @ X \<and>
       paced (retry es) False X \<and> set (sleeps X) \<subseteq> {retry es}"
proof (induction as arbitrary: err es)
  case Nil
  then show ?case by (simp add: log_def)
next
  case (Cons a as)
  show ?case
  proof (cases "mustReconnect es err")
    case False
    then show ?thesis by simp
  next
    case True
    let ?t = "retry es"
    let ?es1 = "log (Sleep ?t) es"
    obtain err' es' where c: "connectOnce ?es1 a = (err', es')"
      by (cases "connectOnce ?es1 a")
    obtain X where X: "trace es' = trace ?es1 @ X" "paced ?t True X" "sleeps X = []"
      using connectOnce_trace [of ?es1 a ?t] c by auto
    have r: "retry es' = ?t"
      using connectOnce_sameDelivery [of ?es1 a] c by (simp add: sameDelivery_def log_def)
    obtain Y where Y: "trace (run_state (reconnect_loop err' es' as)) = trace es' @ Y"
        "paced ?t False Y" "set (sleeps Y) \<subseteq> {?t}"
      using Cons.IH [of err' es'] r by auto
    have "trace (run_state (reconnect_loop err es (a # as))) = trace es @ (Sleep ?t # X @ Y)"
      using True c X Y by (simp add: log_def)
    moreover have "paced ?t False (Sleep ?t # X @ Y)"
      using X Y by (simp add: paced_append paced_weaken)
    moreover have "set (sleeps (Sleep ?t # X @ Y)) \<subseteq> {?t}"
      using X Y by (simp add: sleeps_append)
    ultimately show ?thesis by blast
  qed
qed

lemma reconnect_loop_sameDelivery: "sameDelivery es (run_state (reconnect_loop err es as))"
proof (induction as arbitrary: err es)
  case Nil
  then show ?case by (simp add: sameDelivery_log sameDelivery_refl)
next
  case (Cons a as)
  show ?case
  proof (cases "mustReconnect es err")
    case False
    then show ?thesis by (simp add: sameDelivery_refl)
  next
    case True
    obtain err' es' where c: "connectOnce (log (Sleep (retry es)) es) a = (err', es')"
      by (cases "connectOnce (log (Sleep (retry es)) es) a")
    have "sameDelivery es es'"
      using connectOnce_sameDelivery [of "log (Sleep (retry es)) es" a] c
        sameDelivery_log [of es "Sleep (retry es)"]
      by (auto intro: sameDelivery_trans)
    then show ?thesis
      using True c Cons.IH [of es' err'] by (auto intro: sameDelivery_trans)
  qed
qed

lemma run_state_reconnect:
  "run_state (reconnect es as) =
     (case reconnect_loop None (setReadyState es Connecting) as of
        Returns err es' \<Rightarrow> if err \<noteq> None then run_state (Close es') else es'
      | Panics es' \<Rightarrow> es'
      | Pending es' \<Rightarrow> es')"
  by (simp add: reconnect_def run_state_closeWith split: run.splits)

lemma reconnect_sameDelivery: "sameDelivery es (run_state (reconnect es as))"
proof -
  let ?r = "reconnect_loop None (setReadyState es Connecting) as"
  have a: "sameDelivery es (run_state ?r)"
    using reconnect_loop_sameDelivery [of "setReadyState es Connecting" None as]
      sameDelivery_setReadyState [of es Connecting]
    by (auto intro: sameDelivery_trans)
  show ?thesis
  proof (cases ?r)
    case (Returns err es')
    then show ?thesis
      using a Close_sameDelivery [of es']
      by (auto simp: run_state_reconnect intro: sameDelivery_trans)
  qed (use a in \<open>simp_all add: run_state_reconnect\<close>)
qed

lemma reconnect_trace:
  "\<exists>X. trace (run_state (reconnect es as)) = trace es @ X \<and>
       paced (retry es) False X \<and> set (sleeps X) \<subseteq> {retry es}"
proof -
  let ?es0 = "setReadyState es Connecting"
  let ?r = "reconnect_loop None ?es0 as"
  have e0: "trace ?es0 = trace es" "retry ?es0 = retry es"
    by (simp_all add: setReadyState_def)
  obtain X where X: "trace (run_state ?r) = trace es @ X" "paced (retry es) False X"
      "set (sleeps X) \<subseteq> {retry es}"
    using reconnect_loop_trace [of None ?es0 as] e0 by auto
  show ?thesis
  proof (cases ?r)
    case (Returns err es')
    obtain Y where Y: "trace (run_state (Close es')) = trace es' @ Y"
        "paced (retry es) False Y" "sleeps Y = []"
      using Close_trace [of es' "retry es"] by auto
    have "trace (run_state (Close es')) = trace es @ (X @ Y)"
      using X Y Returns by simp
    moreover have "paced (retry es) False (X @ Y)"
      using X Y by (simp add: paced_append paced_weaken)
    moreover have "set (sleeps (X @ Y)) \<subseteq> {retry es}"
      using X Y by (simp add: sleeps_append)
    ultimately show ?thesis
      using X Returns by (cases "err = None") (auto simp: run_state_reconnect)
  qed (use X in \<open>auto simp: run_state_reconnect\<close>)
qed

lemma connect_trace:
  "trace es = [] \<Longrightarrow>
   paced (retry es) True (trace (run_state (connect es as))) \<and>
   set (sleeps (trace (run_state (connect es as)))) \<subseteq> {retry es}"
proof (cases as)
  case Nil
  assume "trace es = []"
  then show ?thesis using Nil by (simp add: setReadyState_def)
next
  case (Cons a as')
  assume e: "trace es = []"
  let ?es0 = "setReadyState es Connecting"
  obtain err es1 where c: "connectOnce ?es0 a = (err, es1)"
    by (cases "connectOnce ?es0 a")
  have e0: "trace ?es0 = []" "retry ?es0 = retry es"
    using e by (simp_all add: setReadyState_def)
  obtain X where X: "trace es1 = X" "paced (retry es) True X" "sleeps X = []"
    using connectOnce_trace [of ?es0 a "retry es"] c e0 by auto
  have r1: "retry es1 = retry es"
    using connectOnce_sameDelivery [of ?es0 a] c e0 by (simp add: sameDelivery_def)
  show ?thesis
  proof (cases err)
    case None
    then show ?thesis using Cons c X by simp
  next
    case (Some e')
    obtain Y where Y: "trace (run_state (reconnect es1 as')) = trace es1 @ Y"
        "paced (retry es) False Y" "set (sleeps Y) \<subseteq> {retry es}"
      using reconnect_trace [of es1 as'] r1 by auto
    show ?thesis
      using Cons c Some X Y by (simp add: paced_append paced_weaken sleeps_append)
  qed
qed

lemma connect_sameDelivery: "sameDelivery es (run_state (connect es as))"
proof (cases as)
  case Nil
  then show ?thesis by (simp add: sameDelivery_setReadyState)
next
  case (Cons a as')
  obtain err es1 where c: "connectOnce (setReadyState es Connecting) a = (err, es1)"
    by (cases "connectOnce (setReadyState es Connecting) a")
  have s1: "sameDelivery es es1"
    using connectOnce_sameDelivery [of "setReadyState es Connecting" a] c
      sameDelivery_setReadyState [of es Connecting]
    by (auto intro: sameDelivery_trans)
  show ?thesis
    using Cons c s1 reconnect_sameDelivery [of es1 as']
    by (cases err) (auto intro: sameDelivery_trans)
qed

lemma sint_milliseconds:
  assumes "0 \<le> n" and "n * 1000000 < 2 ^ 63"
  shows "sint (word_of_int n * Millisecond :: Duration) = n * 1000000"
proof -
  have e: "(word_of_int n * Millisecond :: Duration) = word_of_int (n * 1000000)"
    by (simp add: Millisecond_def)
  have "sint (word_of_int (n * 1000000) :: Duration) =
          signed_take_bit (LENGTH(64) - 1) (n * 1000000)"
    by (rule sint_sbintrunc')
  also have "\<dots> = n * 1000000"
  proof (rule signed_take_bit_int_eq_self)
    show "- (2 ^ (LENGTH(64) - 1)) \<le> n * 1000000"
      using assms(1) by simp
    show "n * 1000000 < 2 ^ (LENGTH(64) - 1)"
      using assms(2) by simp
  qed
  finally show ?thesis
    by (simp only: e)
qed

text \<open>
  C9: a freshly constructed event source has a retry interval of 1000 ms (1000 * 1000000
  ns). \<^verbatim>\<open>NewEventSource\<close> keeps that interval, every sleep of its run is of that
  interval, and every request after the first attempt comes right after such a sleep.
  The same holds of every call of \<^verbatim>\<open>reconnect\<close> for the interval the source has when
  the call starts (the default, or the one a retry directive has set): the call keeps
  the interval, sleeps nothing else, and makes no request without that sleep right
  before it.
\<close>

theorem default_retry_paces_reconnects:
  "sint (retry (newEventSource u)) = 1000 * 1000000 \<and>
   retry (run_state (NewEventSource u as)) = retry (newEventSource u) \<and>
   paced (retry (newEventSource u)) True (trace (run_state (NewEventSource u as))) \<and>
   set (sleeps (trace (run_state (NewEventSource u as)))) \<subseteq> {retry (newEventSource u)} \<and>
   retry (run_state (reconnect es bs)) = retry es \<and>
   paced (retry es) False (drop (length (trace es)) (trace (run_state (reconnect es bs)))) \<and>
   set (sleeps (drop (length (trace es)) (trace (run_state (reconnect es bs))))) \<subseteq> {retry es}"
proof -
  have d: "sint (retry (newEventSource u)) = 1000 * 1000000"
    by (simp add: newEventSource_def defaultRetry_def Second_def Millisecond_def)
  have t0: "trace (newEventSource u) = []"
    by (simp add: newEventSource_def)
  have n1: "retry (run_state (NewEventSource u as)) = retry (newEventSource u)"
    using connect_sameDelivery [of "newEventSource u" as]
    by (simp add: NewEventSource_def sameDelivery_def)
  have n2: "paced (retry (newEventSource u)) True (trace (run_state (NewEventSource u as)))"
       "set (sleeps (trace (run_state (NewEventSource u as)))) \<subseteq> {retry (newEventSource u)}"
    using connect_trace [OF t0, of as] by (simp_all add: NewEventSource_def)
  have r1: "retry (run_state (reconnect es bs)) = retry es"
    using reconnect_sameDelivery [of es bs] by (simp add: sameDelivery_def)
  obtain X where X: "trace (run_state (reconnect es bs)) = trace es @ X"
      "paced (retry es) False X" "set (sleeps X) \<subseteq> {retry es}"
    using reconnect_trace [of es bs] by auto
  show ?thesis
    using d n1 n2 r1 X by simp
qed

theorem default_retry_paces_reconnects_witness:
  "trace (run_state (NewEventSource ''u'' [DoFails None (OtherError ''refused''), DoReturns (textPlain 200 [])])) =
     [HttpDo (buildRequest (newEventSource ''u'')), Sleep defaultRetry,
      HttpDo (buildRequest (newEventSource ''u'')), BodyClose (textPlain 200 [])] \<and>
   paced (retry (newEventSource ''u'')) True
     (trace (run_state (NewEventSource ''u'' [DoFails None (OtherError ''refused''), DoReturns (textPlain 200 [])]))) \<and>
   set (sleeps (trace (run_state (NewEventSource ''u''
     [DoFails None (OtherError ''refused''), DoReturns (textPlain 200 [])])))) \<subseteq> {retry (newEventSource ''u'')}"
proof -
  have "trace (run_state (NewEventSource ''u'' [DoFails None (OtherError ''refused''), DoReturns (textPlain 200 [])])) =
     [HttpDo (buildRequest (newEventSource ''u'')), Sleep defaultRetry,
      HttpDo (buildRequest (newEventSource ''u'')), BodyClose (textPlain 200 [])]"
    by (simp add: NewEventSource_def newEventSource_def connectOnce_def doHttpConnect_def
        textPlain_def Header_Get_def AllowedContentType_def setReadyState_def log_def
        reconnect_def mustReconnect_def closeWith_def Close_def acquireClosingRight_def
        releaseBody_def closeOut_def buildRequest_def)
  then show ?thesis
    using default_retry_paces_reconnects
            [of "''u''" "[DoFails None (OtherError ''refused''), DoReturns (textPlain 200 [])]"
                "newEventSource ''u''" "[]"]
    by blast
qed

lemma mustReconnect_setReadyState:
  "mustReconnect (setReadyState es s) err = mustReconnect es err"
  by (simp add: mustReconnect_def setReadyState_def)

lemma reconnect_sleeps_first:
  assumes "mustReconnect es None"
  shows "\<exists>X. trace (run_state (reconnect es as)) = trace es @ Sleep (retry es) # X"
proof -
  let ?es0 = "setReadyState es Connecting"
  have m: "mustReconnect ?es0 None"
    using assms by (simp add: mustReconnect_setReadyState)
  have e0: "trace ?es0 = trace es" "retry ?es0 = retry es"
    by (simp_all add: setReadyState_def)
  have loop: "\<exists>X. trace (run_state (reconnect_loop None ?es0 as)) = trace es @ Sleep (retry es) # X"
  proof (cases as)
    case Nil
    then show ?thesis using m e0 by (simp add: log_def)
  next
    case (Cons a as')
    let ?es1 = "log (Sleep (retry es)) ?es0"
    obtain err' es' where c: "connectOnce ?es1 a = (err', es')"
      by (cases "connectOnce ?es1 a")
    obtain X where X: "trace es' = trace ?es1 @ X"
      using connectOnce_trace [of ?es1 a "retry es"] c by auto
    obtain Y where Y: "trace (run_state (reconnect_loop err' es' as')) = trace es' @ Y"
      using reconnect_loop_trace [of err' es' as'] by auto
    have "trace (run_state (reconnect_loop None ?es0 as)) = trace es @ Sleep (retry es) # (X @ Y)"
      using Cons m e0 c X Y by (simp add: log_def)
    then show ?thesis by blast
  qed
  then obtain X where X: "trace (run_state (reconnect_loop None ?es0 as)) = trace es @ Sleep (retry es) # X"
    by blast
  show ?thesis
  proof (cases "reconnect_loop None ?es0 as")
    case (Returns err es')
    obtain Z where Z: "trace (run_state (Close es')) = trace es' @ Z"
      using Close_trace [of es' "retry es"] by auto
    have "trace (run_state (Close es')) = trace es @ Sleep (retry es) # (X @ Z)"
      using X Z Returns by simp
    then show ?thesis
      using X Returns by (cases "err = None") (auto simp: run_state_reconnect)
  qed (use X in \<open>auto simp: run_state_reconnect\<close>)
qed

text \<open>
  The defect behind C2 in general: whatever the URL and the later answers, after a
  first response of a content type that is not allowed, with a status other than 204,
  the constructor goes on to sleep the default interval instead of returning.
\<close>

lemma NewEventSource_mismatch_sleeps:
  assumes "Header_Get (Header r) ''Content-Type'' \<noteq> AllowedContentType" and "StatusCode r \<noteq> 204"
  shows "\<exists>X. trace (run_state (NewEventSource u (DoReturns r # as))) =
               HttpDo (buildRequest (newEventSource u)) # Sleep defaultRetry # X"
proof -
  let ?es1 = "(newEventSource u)\<lparr>resp := Some r, trace := [HttpDo (buildRequest (newEventSource u))]\<rparr>"
  have c: "connectOnce (setReadyState (newEventSource u) Connecting) (DoReturns r) =
             (Some ErrContentType, ?es1)"
    using assms(1)
    by (simp add: connectOnce_def doHttpConnect_def setReadyState_def log_def newEventSource_def
          buildRequest_def)
  have m: "mustReconnect ?es1 None"
    using assms(2) by (simp add: mustReconnect_def)
  obtain X where "trace (run_state (reconnect ?es1 as)) = trace ?es1 @ Sleep (retry ?es1) # X"
    using reconnect_sleeps_first [OF m, of as] by blast
  then have "trace (run_state (NewEventSource u (DoReturns r # as))) =
               HttpDo (buildRequest (newEventSource u)) # Sleep defaultRetry # X"
    using c by (simp add: NewEventSource_def newEventSource_def)
  then show ?thesis by blast
qed

subsection \<open>The decode task\<close>

lemma messages_Cons:
  "messages (ev # evs) = (if isRetryDirective ev then messages evs else ev # messages evs)"
  by (simp add: messages_def)

lemma messages_Nil: "messages [] = []"
  by (simp add: messages_def)

text \<open>What a whole run of the decode task delivers and records.\<close>

lemma consume_run:
  "d es = Some dec \<Longrightarrow> \<not> closed (out es) \<Longrightarrow>
   sent (out (run_state (consume es as))) = sent (out es) @ messages (decoded dec) \<and>
   lastEventID (run_state (consume es as)) = lastEventID_after (lastEventID es) (decoded dec) \<and>
   retry (run_state (consume es as)) = retry_after (retry es) (decoded dec)"
proof (induction es arbitrary: dec rule: consume_induct)
  case (no_decoder es)
  then show ?case by simp
next
  case (blocked es)
  then show ?case by (simp add: consume_blocked messages_Nil)
next
  case (error es err rest)
  let ?es1 = "es\<lparr>d := Some rest\<rparr>"
  have 1: "sameDelivery es ?es1"
    by (simp add: sameDelivery_def)
  have "sameDelivery es (run_state (consume es as))"
  proof (cases "mustReconnect ?es1 (Some err)")
    case False
    then show ?thesis
      using error(1) 1 Close_sameDelivery [of ?es1]
      by (auto simp: consume_error run_state_closeWith intro: sameDelivery_trans)
  next
    case True
    have 2: "sameDelivery es (run_state (reconnect ?es1 as))"
      using 1 reconnect_sameDelivery [of ?es1 as] by (auto intro: sameDelivery_trans)
    show ?thesis
    proof (cases "reconnect ?es1 as")
      case (Returns v es')
      then show ?thesis
        using True error(1) 2 Close_sameDelivery [of es']
        by (auto simp: consume_error run_state_closeWith intro: sameDelivery_trans)
    qed (use True error(1) 2 in \<open>simp_all add: consume_error\<close>)
  qed
  then show ?case
    using error by (simp add: sameDelivery_def messages_Nil)
next
  case (retry es ev rest)
  then show ?case
    by (simp add: consume_retry messages_Cons isRetryDirective_def)
next
  case (message es ev rest)
  then show ?case
    by (simp add: consume_message messages_Cons isRetryDirective_def)
next
  case (message_closed es ev rest)
  then show ?case by simp
qed

lemma retry_after_append:
  "retry_after t (xs @ ys) = retry_after (retry_after t xs) ys"
  by (induction xs arbitrary: t) auto

lemma retry_after_messages:
  "\<forall>e \<in> set evs. \<not> isRetryDirective e \<Longrightarrow> retry_after t evs = t"
  by (induction evs arbitrary: t) auto


lemma lastEventID_after_cases:
  "lastEventID_after l evs = l \<or>
   (\<exists>ev \<in> set (messages evs). ID ev \<noteq> '''' \<and> lastEventID_after l evs = ID ev)"
proof (induction evs arbitrary: l)
  case Nil
  then show ?case by simp
next
  case (Cons ev evs)
  show ?case
    using Cons [of l] Cons [of "ID ev"] by (auto simp: messages_Cons)
qed

text \<open>
  C4, as the spec states it, fails for a delay that does not fit the interval: a retry
  directive with N = 9223372036855 sets \<^verbatim>\<open>es.retry\<close> to
  \<^verbatim>\<open>time.Duration(N) * time.Millisecond\<close>, which wraps to -9223372036854551616 ns and is
  not N milliseconds.
\<close>

theorem consume_retry_directive_counterexample:
  "isRetryDirective (retryDirective 9223372036855) \<and>
   sint (retry (run_state (consume
     ((newEventSource ''u'')\<lparr>d := Some [Inr (retryDirective 9223372036855)]\<rparr>) []))) =
     - 9223372036854551616 \<and>
   sint (retry (run_state (consume
     ((newEventSource ''u'')\<lparr>d := Some [Inr (retryDirective 9223372036855)]\<rparr>) []))) \<noteq>
     9223372036855 * 1000000"
proof -
  let ?es = "(newEventSource ''u'')\<lparr>d := Some [Inr (retryDirective 9223372036855)]\<rparr>"
  have i: "isRetryDirective (retryDirective 9223372036855)"
    by (simp add: isRetryDirective_def retryDirective_def)
  let ?es' = "?es\<lparr>d := Some [],
      retry := word_of_int (Event.retry (retryDirective 9223372036855)) * Millisecond\<rparr>"
  have "consume ?es [] = consume ?es' []"
    by (rule consume_retry) (simp_all add: retryDirective_def)
  moreover have "consume ?es' [] = Pending ?es'"
    by (rule consume_blocked) simp
  ultimately have s: "sint (retry (run_state (consume ?es []))) = - 9223372036854551616"
    by (simp add: Millisecond_def retryDirective_def)
  show ?thesis
    using i s by simp
qed

text \<open>
  C4, amended: in a run of the decode task on an open channel, the events sent to the
  channel are exactly the decoded events that are no retry directive, so no retry
  directive is ever sent; and the interval after the run is the one of the last retry
  directive decoded, \<^verbatim>\<open>time.Duration(N) * time.Millisecond\<close>, whatever the interval was
  before (it is overwritten, not combined). That value is N * 1000000 ns, exactly N
  milliseconds, when N * 1000000 is below 2^63 (N up to 9223372036854). Whatever the
  channel, the turn of the loop that decodes a retry directive does nothing but set
  the interval: it sends nothing and goes on to the next turn.
\<close>

theorem consume_retry_directive:
  assumes "d es = Some dec" and "\<not> closed (out es)"
  shows "sent (out (run_state (consume es as))) = sent (out es) @ messages (decoded dec) \<and>
         (\<forall>ev \<in> set (messages (decoded dec)). \<not> isRetryDirective ev) \<and>
         retry (run_state (consume es as)) = retry_after (retry es) (decoded dec) \<and>
         (\<forall>pre ev post. decoded dec = pre @ ev # post \<and> isRetryDirective ev \<and>
              (\<forall>e \<in> set post. \<not> isRetryDirective e) \<longrightarrow>
            retry (run_state (consume es as)) = word_of_int (Event.retry ev) * Millisecond \<and>
            (Event.retry ev * 1000000 < 2 ^ 63 \<longrightarrow>
               sint (retry (run_state (consume es as))) = Event.retry ev * 1000000)) \<and>
         (d es' = Some (Inr ev' # rest') \<and> isRetryDirective ev' \<longrightarrow>
            consume es' bs =
              consume (es'\<lparr>d := Some rest',
                          retry := word_of_int (Event.retry ev') * Millisecond\<rparr>) bs)"
proof -
  note run = consume_run [OF assms, of as]
  have last: "retry (run_state (consume es as)) = word_of_int (Event.retry ev) * Millisecond \<and>
      (Event.retry ev * 1000000 < 2 ^ 63 \<longrightarrow>
         sint (retry (run_state (consume es as))) = Event.retry ev * 1000000)"
    if "decoded dec = pre @ ev # post" and "isRetryDirective ev"
      and "\<forall>e \<in> set post. \<not> isRetryDirective e" for pre ev post
  proof -
    have "retry (run_state (consume es as)) = word_of_int (Event.retry ev) * Millisecond"
      using run that by (simp add: retry_after_append retry_after_messages)
    then show ?thesis
      using that(2) sint_milliseconds [of "Event.retry ev"] by (simp add: isRetryDirective_def)
  qed
  have c1: "sent (out (run_state (consume es as))) = sent (out es) @ messages (decoded dec)"
    using run by simp
  have c2: "\<forall>ev \<in> set (messages (decoded dec)). \<not> isRetryDirective ev"
    by (simp add: messages_def)
  have c3: "retry (run_state (consume es as)) = retry_after (retry es) (decoded dec)"
    using run by simp
  have c5: "d es' = Some (Inr ev' # rest') \<and> isRetryDirective ev' \<longrightarrow>
            consume es' bs =
              consume (es'\<lparr>d := Some rest',
                          retry := word_of_int (Event.retry ev') * Millisecond\<rparr>) bs"
    by (auto simp: isRetryDirective_def consume_retry)
  show ?thesis
    using last by (intro conjI c1 c2 c3 c5) blast
qed

theorem consume_retry_directive_witness:
  "d ((newEventSource ''u'')\<lparr>d := Some [Inr (message ''1'' ''a''), Inr (retryDirective 3000),
                                        Inl ErrUnexpectedEOF]\<rparr>) =
     Some [Inr (message ''1'' ''a''), Inr (retryDirective 3000), Inl ErrUnexpectedEOF] \<and>
   \<not> closed (out ((newEventSource ''u'')\<lparr>d := Some [Inr (message ''1'' ''a''),
                                        Inr (retryDirective 3000), Inl ErrUnexpectedEOF]\<rparr>)) \<and>
   decoded [Inr (message ''1'' ''a''), Inr (retryDirective 3000), Inl ErrUnexpectedEOF] =
     [message ''1'' ''a''] @ retryDirective 3000 # [] \<and>
   isRetryDirective (retryDirective 3000) \<and>
   Event.retry (retryDirective 3000) * 1000000 < 2 ^ 63 \<and>
   sent (out (run_state (consume ((newEventSource ''u'')\<lparr>d := Some [Inr (message ''1'' ''a''),
        Inr (retryDirective 3000), Inl ErrUnexpectedEOF]\<rparr>) []))) = [message ''1'' ''a''] \<and>
   sint (retry (run_state (consume ((newEventSource ''u'')\<lparr>d := Some [Inr (message ''1'' ''a''),
        Inr (retryDirective 3000), Inl ErrUnexpectedEOF]\<rparr>) []))) = 3000 * 1000000"
proof -
  let ?dec = "[Inr (message ''1'' ''a''), Inr (retryDirective 3000), Inl ErrUnexpectedEOF]"
  let ?es = "(newEventSource ''u'')\<lparr>d := Some ?dec\<rparr>"
  have h1: "d ?es = Some ?dec"
    by simp
  have h2: "\<not> closed (out ?es)"
    by (simp add: newEventSource_def)
  have h3: "decoded ?dec = [message ''1'' ''a''] @ retryDirective 3000 # []"
    by simp
  have h4: "isRetryDirective (retryDirective 3000)"
    by (simp add: isRetryDirective_def retryDirective_def)
  have h5: "Event.retry (retryDirective 3000) * 1000000 < 2 ^ 63"
    by (simp add: retryDirective_def)
  have h6: "\<not> isRetryDirective (message ''1'' ''a'')"
    by (simp add: isRetryDirective_def message_def)
  note t = consume_retry_directive [OF h1 h2, of "[]"]
  have s: "sent (out (run_state (consume ?es []))) = [message ''1'' ''a'']"
    using t h4 h6 by (simp add: messages_def newEventSource_def)
  have pre: "decoded ?dec = [message ''1'' ''a''] @ retryDirective 3000 # [] \<and>
      isRetryDirective (retryDirective 3000) \<and> (\<forall>e \<in> set []. \<not> isRetryDirective e)"
    using h3 h4 by simp
  have "sint (retry (run_state (consume ?es []))) = Event.retry (retryDirective 3000) * 1000000"
    by (rule t [THEN conjunct2, THEN conjunct2, THEN conjunct2, THEN conjunct1, rule_format,
                OF pre, THEN conjunct2, rule_format, OF h5])
  then have r: "sint (retry (run_state (consume ?es []))) = 3000 * 1000000"
    by (simp add: retryDirective_def)
  show ?thesis
    using h1 h2 h3 h4 h5 s r by blast
qed


subsection \<open>Concurrent calls of Close\<close>

text \<open>The four steps of one call, run alone, are \<^verbatim>\<open>Close\<close>, panic included.\<close>

lemma Close_is_its_steps:
  "Close es =
     (case threads (run_schedule (callers 1 es as) [0, 0, 0, 0]) of
        [Caller (Finished b)] \<Rightarrow> Returns () (source (run_schedule (callers 1 es as) [0, 0, 0, 0]))
      | _ \<Rightarrow> Panics (source (run_schedule (callers 1 es as) [0, 0, 0, 0])))"
  by (simp add: Close_def run_schedule_def callers_def step_def acquireClosingRight_def closeOut_def
        split: option.splits)

lemma bodyCloses_append: "bodyCloses (xs @ ys) = bodyCloses xs @ bodyCloses ys"
  by (induction xs rule: bodyCloses.induct) auto

lemma releaseBody_fields:
  "readyState (releaseBody es) = readyState es" "out (releaseBody es) = out es"
  by (simp_all add: releaseBody_def log_def split: option.splits)

lemma Close_live_state:
  "live es \<Longrightarrow>
   run_state (Close es) =
     (releaseBody (es\<lparr>readyState := Closing\<rparr>))\<lparr>out := (out es)\<lparr>closed := True\<rparr>,
                                                   readyState := Closed\<rparr>"
  by (simp add: live_def Close_def acquireClosingRight_def closeOut_def releaseBody_fields
        setReadyState_def)

lemma winner_at_cases:
  "winner_at es th es' \<Longrightarrow>
   th = Caller AtRelease \<or> th = Caller AtCloseOut \<or> th = Caller AtSetClosed \<or>
   th = Caller (Finished True)"
  by (auto simp: winner_at_def)

lemma winner_at_not_live:
  "winner_at es th es' \<Longrightarrow> live es \<Longrightarrow> readyState es' = Closing \<or> readyState es' = Closed"
  by (auto simp: winner_at_def Close_live_state releaseBody_fields)

lemma winner_step:
  "winner_at es (Caller p) es' \<Longrightarrow> live es \<Longrightarrow> Close_step p es' = (p', es'') \<Longrightarrow>
   winner_at es (Caller p') es''"
  by (auto simp: winner_at_def Close_live_state live_def releaseBody_fields closeOut_def
        setReadyState_def)

lemma loser_step:
  "readyState es' = Closing \<or> readyState es' = Closed \<Longrightarrow> p = AtAcquire \<or> p = Finished False \<Longrightarrow>
   Close_step p es' = (p', es'') \<Longrightarrow> p' = Finished False \<and> es'' = es'"
  by (auto simp: acquireClosingRight_def)

lemma first_step:
  "live es \<Longrightarrow> Close_step AtAcquire es = (p', es'') \<Longrightarrow> winner_at es (Caller p') es''"
  by (auto simp: winner_at_def live_def acquireClosingRight_def)

lemma Close_inv_wonI:
  "length (threads sys) = n \<Longrightarrow> answers sys = as \<Longrightarrow> w < n \<Longrightarrow>
   winner_at es (threads sys ! w) (source sys) \<Longrightarrow>
   \<forall>j < n. j \<noteq> w \<longrightarrow>
     threads sys ! j = Caller AtAcquire \<or> threads sys ! j = Caller (Finished False) \<Longrightarrow>
   Close_inv n es as sys"
  by (auto simp: Close_inv_def)

lemma step_Caller:
  "k < length (threads sys) \<Longrightarrow> threads sys ! k = Caller p \<Longrightarrow> Close_step p (source sys) = (p', es') \<Longrightarrow>
   step sys k = sys\<lparr>threads := (threads sys)[k := Caller p'], source := es'\<rparr>"
  by (simp add: step_def)

lemma Close_inv_step:
  assumes l: "live es" and i: "Close_inv n es as sys"
  shows "Close_inv n es as (step sys k)"
proof (cases "k < n")
  case False
  then show ?thesis using i by (simp add: step_def Close_inv_def)
next
  case True
  let ?ths = "threads sys"
  have len: "length ?ths = n" and ans: "answers sys = as"
    using i by (simp_all add: Close_inv_def)
  from i consider
      (start) "\<forall>j < n. ?ths ! j = Caller AtAcquire" "source sys = es"
    | (won) w where "w < n" "winner_at es (?ths ! w) (source sys)"
        "\<forall>j < n. j \<noteq> w \<longrightarrow> ?ths ! j = Caller AtAcquire \<or> ?ths ! j = Caller (Finished False)"
    by (auto simp: Close_inv_def)
  then show ?thesis
  proof cases
    case start
    have tk: "?ths ! k = Caller AtAcquire"
      using start True by simp
    obtain p' s' where st: "Close_step AtAcquire (source sys) = (p', s')"
      by (cases "Close_step AtAcquire (source sys)")
    have res: "step sys k = sys\<lparr>threads := ?ths[k := Caller p'], source := s'\<rparr>"
      using step_Caller [OF _ tk st] True len by simp
    have "winner_at es (?ths[k := Caller p'] ! k) s'"
      using first_step [OF l, of p' s'] st start True len by simp
    moreover have "\<forall>j < n. j \<noteq> k \<longrightarrow> ?ths[k := Caller p'] ! j = Caller AtAcquire \<or>
        ?ths[k := Caller p'] ! j = Caller (Finished False)"
      using start len by simp
    ultimately show ?thesis
      unfolding res using True len ans by (intro Close_inv_wonI [where w = k]) simp_all
  next
    case won
    show ?thesis
    proof (cases "k = w")
      case True
      obtain p where tk: "?ths ! k = Caller p"
        using winner_at_cases [OF won(2)] True by auto
      obtain p' s' where st: "Close_step p (source sys) = (p', s')"
        by (cases "Close_step p (source sys)")
      have res: "step sys k = sys\<lparr>threads := ?ths[k := Caller p'], source := s'\<rparr>"
        using step_Caller [OF _ tk st] \<open>k < n\<close> len by simp
      have "winner_at es (?ths[k := Caller p'] ! w) s'"
        using winner_step [OF _ l st] won(2) tk True len won(1) by simp
      moreover have "\<forall>j < n. j \<noteq> w \<longrightarrow> ?ths[k := Caller p'] ! j = Caller AtAcquire \<or>
          ?ths[k := Caller p'] ! j = Caller (Finished False)"
        using won(3) True len by simp
      ultimately show ?thesis
        unfolding res using won(1) len ans by (intro Close_inv_wonI [where w = w]) simp_all
    next
      case False
      have pk: "?ths ! k = Caller AtAcquire \<or> ?ths ! k = Caller (Finished False)"
        using won(3) False \<open>k < n\<close> by simp
      then obtain p where tk: "?ths ! k = Caller p" and pp: "p = AtAcquire \<or> p = Finished False"
        by auto
      obtain p' s' where st: "Close_step p (source sys) = (p', s')"
        by (cases "Close_step p (source sys)")
      have res: "step sys k = sys\<lparr>threads := ?ths[k := Caller p'], source := s'\<rparr>"
        using step_Caller [OF _ tk st] \<open>k < n\<close> len by simp
      have ls: "p' = Finished False \<and> s' = source sys"
        using loser_step [OF winner_at_not_live [OF won(2) l] pp st] .
      have "winner_at es (?ths[k := Caller p'] ! w) s'"
        using won(2) False ls len won(1) by simp
      moreover have "\<forall>j < n. j \<noteq> w \<longrightarrow> ?ths[k := Caller p'] ! j = Caller AtAcquire \<or>
          ?ths[k := Caller p'] ! j = Caller (Finished False)"
      proof (intro allI impI)
        fix j
        assume j: "j < n" "j \<noteq> w"
        show "?ths[k := Caller p'] ! j = Caller AtAcquire \<or>
            ?ths[k := Caller p'] ! j = Caller (Finished False)"
        proof (cases "j = k")
          case True
          then show ?thesis using ls len j by simp
        next
          case False
          then show ?thesis using won(3) j by simp
        qed
      qed
      ultimately show ?thesis
        unfolding res using won(1) len ans by (intro Close_inv_wonI [where w = w]) simp_all
    qed
  qed
qed

lemma Close_inv_run:
  "live es \<Longrightarrow> Close_inv n es as sys \<Longrightarrow> Close_inv n es as (foldl step sys sched)"
  by (induction sched arbitrary: sys) (simp_all add: Close_inv_step)

lemma Close_inv_init: "Close_inv n es as (callers n es as)"
  by (simp add: Close_inv_def callers_def)

text \<open>
  With no decode task beside them, any number of concurrent calls of \<^verbatim>\<open>Close\<close> on a live
  source close it once, under every interleaving of their steps: no call panics, at
  most one call ever holds the closing right, and once all calls have finished exactly
  one of them has done the teardown and the state is the one a single \<^verbatim>\<open>Close\<close> leaves.
\<close>

lemma callers_alone_one_teardown:
  assumes "live es"
  shows "length (threads (run_schedule (callers n es as) sched)) = n \<and>
         Caller Crashed \<notin> set (threads (run_schedule (callers n es as) sched)) \<and>
         (\<forall>i < n. \<forall>j < n.
            (holdsClosingRight (threads (run_schedule (callers n es as) sched) ! i) \<or>
             threads (run_schedule (callers n es as) sched) ! i = Caller (Finished True)) \<and>
            (holdsClosingRight (threads (run_schedule (callers n es as) sched) ! j) \<or>
             threads (run_schedule (callers n es as) sched) ! j = Caller (Finished True)) \<longrightarrow> i = j) \<and>
         (0 < n \<and> (\<forall>th \<in> set (threads (run_schedule (callers n es as) sched)).
                      \<exists>b. th = Caller (Finished b)) \<longrightarrow>
            (\<exists>w < n. threads (run_schedule (callers n es as) sched) ! w = Caller (Finished True) \<and>
               (\<forall>j < n. j \<noteq> w \<longrightarrow>
                  threads (run_schedule (callers n es as) sched) ! j = Caller (Finished False))) \<and>
            source (run_schedule (callers n es as) sched) = run_state (Close es) \<and>
            readyState (source (run_schedule (callers n es as) sched)) = Closed \<and>
            closed (out (source (run_schedule (callers n es as) sched))) \<and>
            bodyCloses (trace (source (run_schedule (callers n es as) sched))) =
              bodyCloses (trace es) @ (case resp es of None \<Rightarrow> [] | Some r \<Rightarrow> [r]))"
proof -
  let ?sys = "run_schedule (callers n es as) sched"
  let ?ths = "threads ?sys"
  have inv: "Close_inv n es as ?sys"
    using Close_inv_run [OF assms Close_inv_init] by (simp add: run_schedule_def)
  have len: "length ?ths = n"
    using inv by (simp add: Close_inv_def)
  from inv have shape:
    "(\<forall>j < n. ?ths ! j = Caller AtAcquire) \<or>
     (\<exists>w < n. winner_at es (?ths ! w) (source ?sys) \<and>
        (\<forall>j < n. j \<noteq> w \<longrightarrow> ?ths ! j = Caller AtAcquire \<or> ?ths ! j = Caller (Finished False)))"
    by (auto simp: Close_inv_def)
  have pcs: "?ths ! j \<noteq> Caller Crashed" if "j < n" for j
  proof -
    from shape consider
        (start) "\<forall>j < n. ?ths ! j = Caller AtAcquire"
      | (won) w where "w < n" "winner_at es (?ths ! w) (source ?sys)"
          "\<forall>j < n. j \<noteq> w \<longrightarrow> ?ths ! j = Caller AtAcquire \<or> ?ths ! j = Caller (Finished False)"
      by blast
    then show ?thesis
    proof cases
      case start
      then show ?thesis using that by simp
    next
      case won
      show ?thesis
      proof (cases "j = w")
        case True
        then show ?thesis using winner_at_cases [OF won(2)] by auto
      next
        case False
        then show ?thesis using won(3) that by auto
      qed
    qed
  qed
  have nocrash: "Caller Crashed \<notin> set ?ths"
    using pcs len by (auto simp: in_set_conv_nth)
  have one: "i = j"
    if "i < n" "j < n"
      "holdsClosingRight (?ths ! i) \<or> ?ths ! i = Caller (Finished True)"
      "holdsClosingRight (?ths ! j) \<or> ?ths ! j = Caller (Finished True)" for i j
  proof -
    from shape consider
        (start) "\<forall>j < n. ?ths ! j = Caller AtAcquire"
      | (won) w where "w < n" "winner_at es (?ths ! w) (source ?sys)"
          "\<forall>j < n. j \<noteq> w \<longrightarrow> ?ths ! j = Caller AtAcquire \<or> ?ths ! j = Caller (Finished False)"
      by blast
    then show ?thesis
    proof cases
      case start
      then show ?thesis using that by (auto simp: holdsClosingRight_def)
    next
      case won
      have only: "x = w"
        if "x < n" "holdsClosingRight (?ths ! x) \<or> ?ths ! x = Caller (Finished True)" for x
      proof (rule ccontr)
        assume "x \<noteq> w"
        then have "?ths ! x = Caller AtAcquire \<or> ?ths ! x = Caller (Finished False)"
          using won(3) that(1) by simp
        then show False
          using that(2) by (auto simp: holdsClosingRight_def)
      qed
      show ?thesis
        using only [OF that(1,3)] only [OF that(2,4)] by simp
    qed
  qed
  have fin: "(\<exists>w < n. ?ths ! w = Caller (Finished True) \<and>
               (\<forall>j < n. j \<noteq> w \<longrightarrow> ?ths ! j = Caller (Finished False))) \<and>
            source ?sys = run_state (Close es)"
    if "0 < n" and all: "\<forall>th \<in> set ?ths. \<exists>b. th = Caller (Finished b)"
  proof -
    have f: "\<exists>b. ?ths ! j = Caller (Finished b)" if "j < n" for j
    proof -
      have "?ths ! j \<in> set ?ths"
        using len that by simp
      then show ?thesis
        using all by blast
    qed
    from shape consider
        (start) "\<forall>j < n. ?ths ! j = Caller AtAcquire"
      | (won) w where "w < n" "winner_at es (?ths ! w) (source ?sys)"
          "\<forall>j < n. j \<noteq> w \<longrightarrow> ?ths ! j = Caller AtAcquire \<or> ?ths ! j = Caller (Finished False)"
      by blast
    then show ?thesis
    proof cases
      case start
      then show ?thesis using f [of 0] \<open>0 < n\<close> by auto
    next
      case won
      have "?ths ! w = Caller (Finished True) \<and> source ?sys = run_state (Close es)"
        using won(2) f [OF won(1)] by (auto simp: winner_at_def)
      moreover have "\<forall>j < n. j \<noteq> w \<longrightarrow> ?ths ! j = Caller (Finished False)"
      proof (intro allI impI)
        fix j
        assume j: "j < n" "j \<noteq> w"
        then have "?ths ! j = Caller AtAcquire \<or> ?ths ! j = Caller (Finished False)"
          using won(3) by simp
        then show "?ths ! j = Caller (Finished False)"
          using f [OF j(1)] by auto
      qed
      ultimately show ?thesis using won(1) by blast
    qed
  qed
  have fs: "readyState (run_state (Close es)) = Closed" "closed (out (run_state (Close es)))"
      "bodyCloses (trace (run_state (Close es))) =
         bodyCloses (trace es) @ (case resp es of None \<Rightarrow> [] | Some r \<Rightarrow> [r])"
    using assms
    by (simp_all add: Close_live_state releaseBody_def log_def bodyCloses_append split: option.splits)
  have c3: "\<forall>i < n. \<forall>j < n.
            (holdsClosingRight (?ths ! i) \<or> ?ths ! i = Caller (Finished True)) \<and>
            (holdsClosingRight (?ths ! j) \<or> ?ths ! j = Caller (Finished True)) \<longrightarrow> i = j"
    using one by blast
  have c4: "0 < n \<and> (\<forall>th \<in> set ?ths. \<exists>b. th = Caller (Finished b)) \<longrightarrow>
            (\<exists>w < n. ?ths ! w = Caller (Finished True) \<and>
               (\<forall>j < n. j \<noteq> w \<longrightarrow> ?ths ! j = Caller (Finished False))) \<and>
            source ?sys = run_state (Close es) \<and>
            readyState (source ?sys) = Closed \<and>
            closed (out (source ?sys)) \<and>
            bodyCloses (trace (source ?sys)) =
              bodyCloses (trace es) @ (case resp es of None \<Rightarrow> [] | Some r \<Rightarrow> [r])"
  proof (intro impI)
    assume a: "0 < n \<and> (\<forall>th \<in> set ?ths. \<exists>b. th = Caller (Finished b))"
    note f = fin [OF conjunct1 [OF a] conjunct2 [OF a]]
    have e: "source ?sys = run_state (Close es)"
      using f by (rule conjunct2)
    show "(\<exists>w < n. ?ths ! w = Caller (Finished True) \<and>
               (\<forall>j < n. j \<noteq> w \<longrightarrow> ?ths ! j = Caller (Finished False))) \<and>
            source ?sys = run_state (Close es) \<and>
            readyState (source ?sys) = Closed \<and>
            closed (out (source ?sys)) \<and>
            bodyCloses (trace (source ?sys)) =
              bodyCloses (trace es) @ (case resp es of None \<Rightarrow> [] | Some r \<Rightarrow> [r])"
      unfolding e using f fs by (intro conjI) (simp_all only: e [symmetric])
  qed
  show ?thesis
    by (intro conjI len nocrash c3 c4)
qed

text \<open>A turn of the decoding loop that handles an event is the same in the task and in \<^verbatim>\<open>consume\<close>.\<close>

lemma task_step_event:
  assumes "d es = Some (Inr ev # rest)" and "task_step TaskDecode es as = (t, spawn, es', as')"
  shows "(t = TaskDecode \<and> consume es bs = consume es' bs) \<or>
         (t = TaskCrashed \<and> consume es bs = Panics es')"
proof (cases "0 \<le> Event.retry ev")
  case True
  then show ?thesis
    using assms by (auto simp: Decode_def consume_retry)
next
  case False
  show ?thesis
  proof (cases "closed (out es)")
    case True
    then show ?thesis
      using assms False
      by (auto simp: Decode_def send_def setLastEventID_def consume_message_closed)
  next
    case c: False
    then show ?thesis
      using assms False
      by (auto simp: Decode_def send_def setLastEventID_def consume_message)
  qed
qed

lemma openSource_eq:
  "openSource =
     \<lparr>url = ''http://host/stream'',
      d = Some [Inl (OtherError ''read on closed response body'')],
      resp = Some (eventStream 200 [Inl (OtherError ''read on closed response body'')]),
      out = \<lparr>sent = [], closed = False\<rparr>, lastEventID = '''', readyState = Open,
      retry = defaultRetry,
      trace = [HttpDo (buildRequest (newEventSource ''http://host/stream'')), GoConsume]\<rparr>"
  by (simp add: openSource_def NewEventSource_def newEventSource_def connectOnce_def
        doHttpConnect_def eventStream_def Header_Get_def AllowedContentType_def setReadyState_def
        log_def buildRequest_def NewDecoder_def)

text \<open>
  C7 does not hold while a decode task is alive, because \<^verbatim>\<open>setReadyState\<close> guards
  \<open>Closed\<close> only and so overwrites \<open>Closing\<close>. The source is open after a first
  connect, its decode task waits in \<^verbatim>\<open>Decode\<close>, and two callers run \<^verbatim>\<open>Close\<close>. The first
  caller acquires the closing right and releases the body; the read of the decode task
  fails, the task classifies the error retryable and enters \<^verbatim>\<open>reconnect\<close>, whose
  \<^verbatim>\<open>setReadyState(Connecting)\<close> replaces \<open>Closing\<close>; the second caller then acquires the
  closing right too. Both callers hold it, the body is released twice, the second
  caller closes the channel, and the \<^verbatim>\<open>close(es.out)\<close> of the first caller panics.
\<close>

theorem second_caller_acquires_after_reconnect:
  "returned (NewEventSource ''http://host/stream''
       [DoReturns (eventStream 200 [Inl (OtherError ''read on closed response body'')])]) = Some None \<and>
   readyState openSource = Open \<and> live openSource \<and>
   threads (run_schedule twoCallersAndTask [0, 0, 2, 2, 2, 1]) =
     [Caller AtCloseOut, Caller AtRelease, Task (TaskLoop None)] \<and>
   holdsClosingRight (threads (run_schedule twoCallersAndTask [0, 0, 2, 2, 2, 1]) ! 0) \<and>
   holdsClosingRight (threads (run_schedule twoCallersAndTask [0, 0, 2, 2, 2, 1]) ! 1) \<and>
   threads (run_schedule twoCallersAndTask [0, 0, 2, 2, 2, 1, 1, 1, 0]) =
     [Caller Crashed, Caller AtSetClosed, Task (TaskLoop None)] \<and>
   bodyCloses (trace (source (run_schedule twoCallersAndTask [0, 0, 2, 2, 2, 1, 1, 1, 0]))) =
     [eventStream 200 [Inl (OtherError ''read on closed response body'')],
      eventStream 200 [Inl (OtherError ''read on closed response body'')]]"
proof -
  have r: "returned (NewEventSource ''http://host/stream''
       [DoReturns (eventStream 200 [Inl (OtherError ''read on closed response body'')])]) = Some None"
    by (simp add: NewEventSource_def newEventSource_def connectOnce_def
        doHttpConnect_def eventStream_def Header_Get_def AllowedContentType_def setReadyState_def
        log_def)
  have o: "readyState openSource = Open" "live openSource"
    by (simp_all add: openSource_eq live_def)
  have a: "threads (run_schedule twoCallersAndTask [0, 0, 2, 2, 2, 1]) =
     [Caller AtCloseOut, Caller AtRelease, Task (TaskLoop None)]"
    by (simp add: run_schedule_def twoCallersAndTask_def openSource_eq step_def
          acquireClosingRight_def releaseBody_def closeOut_def setReadyState_def log_def
          Decode_def mustReconnect_def eventStream_def eval_nat_numeral)
  have b: "threads (run_schedule twoCallersAndTask [0, 0, 2, 2, 2, 1, 1, 1, 0]) =
     [Caller Crashed, Caller AtSetClosed, Task (TaskLoop None)]"
    by (simp add: run_schedule_def twoCallersAndTask_def openSource_eq step_def
          acquireClosingRight_def releaseBody_def closeOut_def setReadyState_def log_def
          Decode_def mustReconnect_def eventStream_def eval_nat_numeral)
  have c: "bodyCloses (trace (source (run_schedule twoCallersAndTask [0, 0, 2, 2, 2, 1, 1, 1, 0]))) =
     [eventStream 200 [Inl (OtherError ''read on closed response body'')],
      eventStream 200 [Inl (OtherError ''read on closed response body'')]]"
    by (simp add: run_schedule_def twoCallersAndTask_def openSource_eq step_def
          acquireClosingRight_def releaseBody_def closeOut_def setReadyState_def log_def
          Decode_def mustReconnect_def eventStream_def eval_nat_numeral)
  have h: "holdsClosingRight (threads (run_schedule twoCallersAndTask [0, 0, 2, 2, 2, 1]) ! 0)"
      "holdsClosingRight (threads (run_schedule twoCallersAndTask [0, 0, 2, 2, 2, 1]) ! 1)"
    unfolding a by (simp_all add: holdsClosingRight_def)
  show ?thesis
    by (intro conjI r o a h b c)
qed

subsection \<open>The decode task and the Last-Event-ID header of eventsource.go\<close>

lemma requests_append: "requests (xs @ ys) = requests xs @ requests ys"
  by (induction xs rule: requests.induct) auto

text \<open>The connecting calls of eventsource.go leave the URL, the last event id and the channel alone.\<close>

lemma connectOnce_go_frame:
  "EventSource.url (snd (connectOnce_go es a)) = EventSource.url es \<and>
   EventSource.lastEventID (snd (connectOnce_go es a)) = EventSource.lastEventID es \<and>
   EventSource.out (snd (connectOnce_go es a)) = EventSource.out es"
  by (cases a) (auto simp: connectOnce_go_def doHTTPConnect_def log_go_def setReadyState_go_def)

lemma connectOnce_go_trace:
  "\<exists>X. EventSource.trace (snd (connectOnce_go es a)) = EventSource.trace es @ X \<and>
       (\<forall>r \<in> set (requests X). r = buildRequest_go es)"
  by (cases a) (auto simp: connectOnce_go_def doHTTPConnect_def log_go_def setReadyState_go_def)

lemma Close_go_frame:
  "EventSource.url (run_state (Close_go es)) = EventSource.url es \<and>
   EventSource.lastEventID (run_state (Close_go es)) = EventSource.lastEventID es \<and>
   sent (EventSource.out (run_state (Close_go es))) = sent (EventSource.out es)"
  by (auto simp: Close_go_def acquireClosingRight_go_def releaseBody_go_def closeOut_go_def
        log_go_def setReadyState_go_def split: option.splits)

lemma Close_go_trace:
  "\<exists>X. EventSource.trace (run_state (Close_go es)) = EventSource.trace es @ X \<and> requests X = []"
  by (auto simp: Close_go_def acquireClosingRight_go_def releaseBody_go_def closeOut_go_def
        log_go_def setReadyState_go_def split: option.splits)

lemma run_state_closeWith_go: "run_state (closeWith_go v es) = run_state (Close_go es)"
  by (cases "Close_go es") (simp_all add: closeWith_go_def)

lemma buildRequest_go_cong:
  "EventSource.url es' = EventSource.url es \<Longrightarrow>
   EventSource.lastEventID es' = EventSource.lastEventID es \<Longrightarrow>
   buildRequest_go es' = buildRequest_go es"
  by (simp add: buildRequest_go_def)

lemma reconnect_loop_go_run:
  "EventSource.url (run_state (reconnect_loop_go err es as)) = EventSource.url es \<and>
   EventSource.lastEventID (run_state (reconnect_loop_go err es as)) = EventSource.lastEventID es \<and>
   EventSource.out (run_state (reconnect_loop_go err es as)) = EventSource.out es \<and>
   (\<exists>X. EventSource.trace (run_state (reconnect_loop_go err es as)) = EventSource.trace es @ X \<and>
        (\<forall>r \<in> set (requests X). r = buildRequest_go es))"
proof (induction as arbitrary: err es)
  case Nil
  then show ?case by (simp add: log_go_def split: option.splits)
next
  case (Cons a as)
  show ?case
  proof (cases "mustReconnect_go es err")
    case False
    then show ?thesis by simp
  next
    case True
    show ?thesis
    proof (cases "EventSource.d es")
      case None
      then show ?thesis using True by simp
    next
      case (Some dec)
      let ?es1 = "log_go (Sleep (word_of_int (Retry dec) * Millisecond)) es"
      obtain err' es' where c: "connectOnce_go ?es1 a = (err', es')"
        by (cases "connectOnce_go ?es1 a")
      have f: "EventSource.url es' = EventSource.url es"
          "EventSource.lastEventID es' = EventSource.lastEventID es"
          "EventSource.out es' = EventSource.out es"
        using connectOnce_go_frame [of ?es1 a] c by (simp_all add: log_go_def)
      have b: "buildRequest_go ?es1 = buildRequest_go es" "buildRequest_go es' = buildRequest_go es"
        using f by (simp_all add: buildRequest_go_def log_go_def)
      obtain X where X: "EventSource.trace es' = EventSource.trace ?es1 @ X"
          "\<forall>r \<in> set (requests X). r = buildRequest_go es"
        using connectOnce_go_trace [of ?es1 a] c b by auto
      obtain Y where Y:
          "EventSource.trace (run_state (reconnect_loop_go err' es' as)) = EventSource.trace es' @ Y"
          "\<forall>r \<in> set (requests Y). r = buildRequest_go es"
        using Cons.IH [of err' es'] b by auto
      have "EventSource.trace (run_state (reconnect_loop_go err es (a # as))) =
              EventSource.trace es @ (Sleep (word_of_int (Retry dec) * Millisecond) # X @ Y)"
        using True Some c X Y by (simp add: log_go_def)
      moreover have "\<forall>r \<in> set (requests (Sleep (word_of_int (Retry dec) * Millisecond) # X @ Y)).
                       r = buildRequest_go es"
        using X Y by (auto simp: requests_append)
      ultimately have "\<exists>Z. EventSource.trace (run_state (reconnect_loop_go err es (a # as))) =
              EventSource.trace es @ Z \<and> (\<forall>r \<in> set (requests Z). r = buildRequest_go es)"
        by blast
      then show ?thesis
        using True Some c f Cons.IH [of err' es'] by simp
    qed
  qed
qed

lemma run_state_reconnect_go:
  "run_state (reconnect_go es as) =
     (case reconnect_loop_go None (setReadyState_go es Connecting) as of
        Returns err es' \<Rightarrow> if err \<noteq> None then run_state (Close_go es') else es'
      | Panics es' \<Rightarrow> es'
      | Pending es' \<Rightarrow> es')"
  by (simp add: reconnect_go_def run_state_closeWith_go split: run.splits)

lemma reconnect_go_run:
  "EventSource.url (run_state (reconnect_go es as)) = EventSource.url es \<and>
   EventSource.lastEventID (run_state (reconnect_go es as)) = EventSource.lastEventID es \<and>
   sent (EventSource.out (run_state (reconnect_go es as))) = sent (EventSource.out es) \<and>
   (\<exists>X. EventSource.trace (run_state (reconnect_go es as)) = EventSource.trace es @ X \<and>
        (\<forall>r \<in> set (requests X). r = buildRequest_go es))"
proof -
  let ?es0 = "setReadyState_go es Connecting"
  let ?r = "reconnect_loop_go None ?es0 as"
  have e0: "EventSource.trace ?es0 = EventSource.trace es" "EventSource.url ?es0 = EventSource.url es"
      "EventSource.lastEventID ?es0 = EventSource.lastEventID es"
      "EventSource.out ?es0 = EventSource.out es" "buildRequest_go ?es0 = buildRequest_go es"
    by (simp_all add: setReadyState_go_def buildRequest_go_def)
  note l = reconnect_loop_go_run [of None ?es0 as]
  obtain X where X: "EventSource.trace (run_state ?r) = EventSource.trace es @ X"
      "\<forall>r \<in> set (requests X). r = buildRequest_go es"
    using l e0 by auto
  have f: "EventSource.url (run_state ?r) = EventSource.url es"
      "EventSource.lastEventID (run_state ?r) = EventSource.lastEventID es"
      "EventSource.out (run_state ?r) = EventSource.out es"
    using l e0 by simp_all
  show ?thesis
  proof (cases ?r)
    case (Returns err es')
    obtain Y where Y: "EventSource.trace (run_state (Close_go es')) = EventSource.trace es' @ Y"
        "requests Y = []"
      using Close_go_trace [of es'] by auto
    have "EventSource.trace (run_state (Close_go es')) = EventSource.trace es @ (X @ Y)"
      using X Y Returns by simp
    moreover have "\<forall>r \<in> set (requests (X @ Y)). r = buildRequest_go es"
      using X Y by (simp add: requests_append)
    ultimately have "\<exists>Z. EventSource.trace (run_state (Close_go es')) = EventSource.trace es @ Z \<and>
        (\<forall>r \<in> set (requests Z). r = buildRequest_go es)"
      by blast
    then show ?thesis
      using X f Returns Close_go_frame [of es']
      by (cases "err = None") (auto simp: run_state_reconnect_go)
  qed (use X f in \<open>auto simp: run_state_reconnect_go\<close>)
qed

lemma connect_go_run:
  "\<exists>X. EventSource.trace (run_state (connect_go es as)) = EventSource.trace es @ X \<and>
       (\<forall>r \<in> set (requests X). r = buildRequest_go es)"
proof (cases as)
  case Nil
  then show ?thesis by (simp add: setReadyState_go_def)
next
  case (Cons a as')
  let ?es0 = "setReadyState_go es Connecting"
  have e0: "EventSource.trace ?es0 = EventSource.trace es" "buildRequest_go ?es0 = buildRequest_go es"
    by (simp_all add: setReadyState_go_def buildRequest_go_def)
  obtain err es1 where c: "connectOnce_go ?es0 a = (err, es1)"
    by (cases "connectOnce_go ?es0 a")
  obtain X where X: "EventSource.trace es1 = EventSource.trace es @ X"
      "\<forall>r \<in> set (requests X). r = buildRequest_go es"
    using connectOnce_go_trace [of ?es0 a] c e0 by auto
  show ?thesis
  proof (cases err)
    case None
    then show ?thesis using Cons c X by simp
  next
    case (Some e)
    obtain Y where Y: "EventSource.trace (run_state (Close_go es1)) = EventSource.trace es1 @ Y"
        "requests Y = []"
      using Close_go_trace [of es1] by auto
    have "EventSource.trace (run_state (Close_go es1)) = EventSource.trace es @ (X @ Y)"
      using X Y by simp
    moreover have "\<forall>r \<in> set (requests (X @ Y)). r = buildRequest_go es"
      using X Y by (simp add: requests_append)
    ultimately show ?thesis
      using Cons c Some by (auto simp: run_state_closeWith_go)
  qed
qed

lemma consume_go_no_decoder: "EventSource.d es = None \<Longrightarrow> consume_go es as = Panics es"
  by (subst consume_go.simps) simp

lemma consume_go_blocked:
  "EventSource.d es = Some dec \<Longrightarrow> results dec = [] \<Longrightarrow> consume_go es as = Pending es"
  by (subst consume_go.simps) (simp add: Decode_go_def)

lemma consume_go_error:
  "EventSource.d es = Some dec \<Longrightarrow> results dec = (Inl err, t) # rest \<Longrightarrow>
   consume_go es as =
     (if mustReconnect_go (es\<lparr>EventSource.d := Some \<lparr>Retry = t, results = rest\<rparr>\<rparr>) (Some err)
      then (case reconnect_go (es\<lparr>EventSource.d := Some \<lparr>Retry = t, results = rest\<rparr>\<rparr>) as of
              Returns _ es' \<Rightarrow> closeWith_go () es'
            | Panics es' \<Rightarrow> Panics es'
            | Pending es' \<Rightarrow> Pending es')
      else closeWith_go () (es\<lparr>EventSource.d := Some \<lparr>Retry = t, results = rest\<rparr>\<rparr>))"
  by (subst consume_go.simps) (simp add: Decode_go_def)

lemma consume_go_message:
  "EventSource.d es = Some dec \<Longrightarrow> results dec = (Inr ev, t) # rest \<Longrightarrow>
   \<not> closed (EventSource.out es) \<Longrightarrow>
   consume_go es as =
     consume_go (es\<lparr>EventSource.d := Some \<lparr>Retry = t, results = rest\<rparr>,
                    EventSource.lastEventID := MessageEvent.LastEventID ev,
                    EventSource.out := (EventSource.out es)\<lparr>sent := sent (EventSource.out es) @ [ev]\<rparr>\<rparr>) as"
  by (subst consume_go.simps) (simp add: Decode_go_def send_go_def)

text \<open>What a whole run of the decode task of eventsource.go delivers, records and requests.\<close>

lemma consume_go_run:
  "EventSource.d es = Some dec \<Longrightarrow> \<not> closed (EventSource.out es) \<Longrightarrow>
   EventSource.url (run_state (consume_go es as)) = EventSource.url es \<and>
   sent (EventSource.out (run_state (consume_go es as))) =
     sent (EventSource.out es) @ decoded_go (results dec) \<and>
   EventSource.lastEventID (run_state (consume_go es as)) =
     (if decoded_go (results dec) = [] then EventSource.lastEventID es
      else MessageEvent.LastEventID (last (decoded_go (results dec)))) \<and>
   (\<exists>X. EventSource.trace (run_state (consume_go es as)) = EventSource.trace es @ X \<and>
        (\<forall>r \<in> set (requests X). r = buildRequest_go (run_state (consume_go es as))))"
proof (induction "length (results dec)" arbitrary: es dec)
  case 0
  then show ?case by (simp add: consume_go_blocked)
next
  case (Suc n)
  obtain r t rest where p: "results dec = (r, t) # rest"
    using Suc.hyps(2) by (cases "results dec") auto
  let ?dec' = "\<lparr>Retry = t, results = rest\<rparr>"
  show ?case
  proof (cases r)
    case (Inl err)
    let ?es1 = "es\<lparr>EventSource.d := Some ?dec'\<rparr>"
    have b1: "buildRequest_go ?es1 = buildRequest_go es"
      by (simp add: buildRequest_go_def)
    have fin: "run_state (consume_go es as) =
        (if mustReconnect_go ?es1 (Some err)
         then (case reconnect_go ?es1 as of
                 Returns _ es' \<Rightarrow> run_state (Close_go es') | Panics es' \<Rightarrow> es' | Pending es' \<Rightarrow> es')
         else run_state (Close_go ?es1))"
      using Suc.prems(1) p Inl
      by (simp add: consume_go_error run_state_closeWith_go split: run.splits)
    have goal: "EventSource.url fin = EventSource.url es \<and>
        sent (EventSource.out fin) = sent (EventSource.out es) \<and>
        EventSource.lastEventID fin = EventSource.lastEventID es \<and>
        (\<exists>X. EventSource.trace fin = EventSource.trace es @ X \<and>
             (\<forall>r \<in> set (requests X). r = buildRequest_go es))"
      if "fin = run_state (consume_go es as)" for fin
    proof (cases "mustReconnect_go ?es1 (Some err)")
      case False
      then show ?thesis
        using that fin Close_go_frame [of ?es1] Close_go_trace [of ?es1] by auto
    next
      case True
      note rr = reconnect_go_run [of ?es1 as]
      show ?thesis
      proof (cases "reconnect_go ?es1 as")
        case (Returns v es')
        obtain X where X: "EventSource.trace es' = EventSource.trace es @ X"
            "\<forall>r \<in> set (requests X). r = buildRequest_go es"
          using rr Returns b1 by auto
        obtain Y where Y: "EventSource.trace (run_state (Close_go es')) = EventSource.trace es' @ Y"
            "requests Y = []"
          using Close_go_trace [of es'] by auto
        have "EventSource.trace (run_state (Close_go es')) = EventSource.trace es @ (X @ Y)"
          using X Y by simp
        moreover have "\<forall>r \<in> set (requests (X @ Y)). r = buildRequest_go es"
          using X Y by (simp add: requests_append)
        ultimately have "\<exists>Z. EventSource.trace (run_state (Close_go es')) = EventSource.trace es @ Z \<and>
            (\<forall>r \<in> set (requests Z). r = buildRequest_go es)"
          by blast
        then show ?thesis
          using that fin True Returns rr Close_go_frame [of es'] by simp
      next
        case (Panics es')
        then show ?thesis using that fin True rr b1 by simp
      next
        case (Pending es')
        then show ?thesis using that fin True rr b1 by simp
      qed
    qed
    have "buildRequest_go (run_state (consume_go es as)) = buildRequest_go es"
      using goal [OF refl] by (simp add: buildRequest_go_def)
    then show ?thesis
      using goal [OF refl] p Inl by simp
  next
    case (Inr ev)
    let ?es' = "es\<lparr>EventSource.d := Some ?dec',
                   EventSource.lastEventID := MessageEvent.LastEventID ev,
                   EventSource.out := (EventSource.out es)\<lparr>sent := sent (EventSource.out es) @ [ev]\<rparr>\<rparr>"
    have c: "consume_go es as = consume_go ?es' as"
      using Suc.prems p Inr by (simp add: consume_go_message)
    have "n = length (results ?dec')"
      using Suc.hyps(2) p by simp
    note ih = Suc.hyps(1) [OF this, of ?es']
    show ?thesis
      using ih Suc.prems p Inr by (simp add: c)
  qed
qed

lemma buildRequest_go_header:
  "Method (buildRequest_go es) = ''GET'' \<and> URL (buildRequest_go es) = EventSource.url es \<and>
   ReqHeader (buildRequest_go es) ''Accept'' = Some ''text/event-stream'' \<and>
   ReqHeader (buildRequest_go es) ''Cache-Control'' = Some ''no-store'' \<and>
   ReqHeader (buildRequest_go es) ''Last-Event-ID'' =
     (if EventSource.lastEventID es = '''' then None else Some (EventSource.lastEventID es))"
  by (simp add: buildRequest_go_def AllowedContentType_def)

text \<open>
  \<^verbatim>\<open>doHTTPConnect\<close> of \<^verbatim>\<open>eventsource.go\<close> does send the header. In a run of its decode task
  on an open channel, the messages decoded are all delivered, the stored last event id
  is then that of the last message delivered (the stored one when none was), and every
  request of the reconnection that follows is a GET that carries \<^verbatim>\<open>Last-Event-ID\<close>
  exactly when that id is not empty, with that id as its value. The same holds of every
  call of \<^verbatim>\<open>reconnect\<close> for the id stored when it starts; the first connect, with nothing
  stored, sends no such header.
\<close>

lemma eventsource_go_requests_carry_lastEventID:
  assumes "EventSource.d es = Some dec" and "\<not> closed (EventSource.out es)"
  shows "(\<forall>r \<in> set (requests (drop (length (EventSource.trace es))
                                   (EventSource.trace (run_state (consume_go es as))))).
            Method r = ''GET'' \<and>
            ReqHeader r ''Last-Event-ID'' =
              (if EventSource.lastEventID (run_state (consume_go es as)) = '''' then None
               else Some (EventSource.lastEventID (run_state (consume_go es as))))) \<and>
         sent (EventSource.out (run_state (consume_go es as))) =
           sent (EventSource.out es) @ decoded_go (results dec) \<and>
         EventSource.lastEventID (run_state (consume_go es as)) =
           (if decoded_go (results dec) = [] then EventSource.lastEventID es
            else MessageEvent.LastEventID (last (decoded_go (results dec)))) \<and>
         (\<forall>r \<in> set (requests (drop (length (EventSource.trace es'))
                                   (EventSource.trace (run_state (reconnect_go es' bs))))).
            Method r = ''GET'' \<and>
            ReqHeader r ''Last-Event-ID'' =
              (if EventSource.lastEventID es' = '''' then None
               else Some (EventSource.lastEventID es'))) \<and>
         (\<forall>r \<in> set (requests (EventSource.trace (run_state (NewEventSource_go u cs)))).
            Method r = ''GET'' \<and> ReqHeader r ''Last-Event-ID'' = None)"
proof -
  note run = consume_go_run [OF assms, of as]
  obtain X where X: "EventSource.trace (run_state (consume_go es as)) = EventSource.trace es @ X"
      "\<forall>r \<in> set (requests X). r = buildRequest_go (run_state (consume_go es as))"
    using run by auto
  have 1: "\<forall>r \<in> set (requests (drop (length (EventSource.trace es))
                                   (EventSource.trace (run_state (consume_go es as))))).
            Method r = ''GET'' \<and>
            ReqHeader r ''Last-Event-ID'' =
              (if EventSource.lastEventID (run_state (consume_go es as)) = '''' then None
               else Some (EventSource.lastEventID (run_state (consume_go es as))))"
    using X by (auto simp: buildRequest_go_header)
  obtain Y where Y: "EventSource.trace (run_state (reconnect_go es' bs)) = EventSource.trace es' @ Y"
      "\<forall>r \<in> set (requests Y). r = buildRequest_go es'"
    using reconnect_go_run [of es' bs] by auto
  have 2: "\<forall>r \<in> set (requests (drop (length (EventSource.trace es'))
                                   (EventSource.trace (run_state (reconnect_go es' bs))))).
            Method r = ''GET'' \<and>
            ReqHeader r ''Last-Event-ID'' =
              (if EventSource.lastEventID es' = '''' then None
               else Some (EventSource.lastEventID es'))"
    using Y by (auto simp: buildRequest_go_header)
  obtain Z where Z: "EventSource.trace (run_state (NewEventSource_go u cs)) = Z"
      "\<forall>r \<in> set (requests Z). r = buildRequest_go (newEventSource_go u)"
    using connect_go_run [of "newEventSource_go u" cs]
    by (auto simp: NewEventSource_go_def newEventSource_go_def)
  have 3: "\<forall>r \<in> set (requests (EventSource.trace (run_state (NewEventSource_go u cs)))).
            Method r = ''GET'' \<and> ReqHeader r ''Last-Event-ID'' = None"
    using Z by (auto simp: buildRequest_go_header newEventSource_go_def)
  show ?thesis
    using run by (intro conjI 1 2 3) simp_all
qed

text \<open>
  For one: after the message with id 1 and a broken stream, the request of the
  reconnection carries \<^verbatim>\<open>Last-Event-ID: 1\<close>.
\<close>

lemma eventsource_go_reconnect_sends_lastEventID:
  "EventSource.d ((newEventSource_go ''u'')\<lparr>EventSource.d := Some \<lparr>Retry = 1000, results =
        [(Inr (messageEvent ''1'' ''hello''), 1000), (Inl ErrUnexpectedEOF, 1000)]\<rparr>\<rparr>) =
     Some \<lparr>Retry = 1000, results =
        [(Inr (messageEvent ''1'' ''hello''), 1000), (Inl ErrUnexpectedEOF, 1000)]\<rparr> \<and>
   \<not> closed (EventSource.out ((newEventSource_go ''u'')\<lparr>EventSource.d := Some \<lparr>Retry = 1000, results =
        [(Inr (messageEvent ''1'' ''hello''), 1000), (Inl ErrUnexpectedEOF, 1000)]\<rparr>\<rparr>)) \<and>
   sent (EventSource.out (run_state (consume_go
     ((newEventSource_go ''u'')\<lparr>EventSource.d := Some \<lparr>Retry = 1000, results =
        [(Inr (messageEvent ''1'' ''hello''), 1000), (Inl ErrUnexpectedEOF, 1000)]\<rparr>\<rparr>)
     [DoFails None (OtherError ''refused'')]))) = [messageEvent ''1'' ''hello''] \<and>
   EventSource.lastEventID (run_state (consume_go
     ((newEventSource_go ''u'')\<lparr>EventSource.d := Some \<lparr>Retry = 1000, results =
        [(Inr (messageEvent ''1'' ''hello''), 1000), (Inl ErrUnexpectedEOF, 1000)]\<rparr>\<rparr>)
     [DoFails None (OtherError ''refused'')])) = ''1'' \<and>
   requests (drop (length (EventSource.trace
        ((newEventSource_go ''u'')\<lparr>EventSource.d := Some \<lparr>Retry = 1000, results =
           [(Inr (messageEvent ''1'' ''hello''), 1000), (Inl ErrUnexpectedEOF, 1000)]\<rparr>\<rparr>)))
      (EventSource.trace (run_state (consume_go
        ((newEventSource_go ''u'')\<lparr>EventSource.d := Some \<lparr>Retry = 1000, results =
           [(Inr (messageEvent ''1'' ''hello''), 1000), (Inl ErrUnexpectedEOF, 1000)]\<rparr>\<rparr>)
        [DoFails None (OtherError ''refused'')])))) \<noteq> [] \<and>
   ReqHeader (hd (requests (drop (length (EventSource.trace
        ((newEventSource_go ''u'')\<lparr>EventSource.d := Some \<lparr>Retry = 1000, results =
           [(Inr (messageEvent ''1'' ''hello''), 1000), (Inl ErrUnexpectedEOF, 1000)]\<rparr>\<rparr>)))
      (EventSource.trace (run_state (consume_go
        ((newEventSource_go ''u'')\<lparr>EventSource.d := Some \<lparr>Retry = 1000, results =
           [(Inr (messageEvent ''1'' ''hello''), 1000), (Inl ErrUnexpectedEOF, 1000)]\<rparr>\<rparr>)
        [DoFails None (OtherError ''refused'')])))))) ''Last-Event-ID'' = Some ''1''"
proof -
  let ?dec = "\<lparr>Retry = 1000, results =
        [(Inr (messageEvent ''1'' ''hello''), 1000), (Inl ErrUnexpectedEOF, 1000)]\<rparr>"
  let ?es = "(newEventSource_go ''u'')\<lparr>EventSource.d := Some ?dec\<rparr>"
  let ?fin = "run_state (consume_go ?es [DoFails None (OtherError ''refused'')])"
  let ?reqs = "requests (drop (length (EventSource.trace ?es)) (EventSource.trace ?fin))"
  have h1: "EventSource.d ?es = Some ?dec"
    by simp
  have h2: "\<not> closed (EventSource.out ?es)"
    by (simp add: newEventSource_go_def)
  note t = eventsource_go_requests_carry_lastEventID [OF h1 h2, of "[DoFails None (OtherError ''refused'')]"]
  have s: "sent (EventSource.out ?fin) = [messageEvent ''1'' ''hello'']"
    using t by (simp add: newEventSource_go_def)
  have l: "EventSource.lastEventID ?fin = ''1''"
    using t by (simp add: messageEvent_def)
  have ne: "?reqs \<noteq> []"
    by (simp add: consume_go.simps Decode_go_def send_go_def newEventSource_go_def
          mustReconnect_go_def reconnect_go_def setReadyState_go_def log_go_def
          connectOnce_go_def doHTTPConnect_def)
  then have "hd ?reqs \<in> set ?reqs"
    by (rule hd_in_set)
  then have "ReqHeader (hd ?reqs) ''Last-Event-ID'' =
      (if EventSource.lastEventID ?fin = '''' then None else Some (EventSource.lastEventID ?fin))"
    using t by blast
  then have h: "ReqHeader (hd ?reqs) ''Last-Event-ID'' = Some ''1''"
    by (simp add: l)
  show ?thesis
    by (intro conjI h1 h2 s l ne h)
qed

text \<open>The first connect of \<^verbatim>\<open>eventsource.go\<close> issues its one request whenever a request can be built.\<close>

lemma NewEventSource_go_issues_request:
  "requests (EventSource.trace (run_state (NewEventSource_go u (DoReturns r # cs)))) =
     [buildRequest_go (newEventSource_go u)] \<and>
   requests (EventSource.trace (run_state (NewEventSource_go u (DoFails ro e # cs)))) =
     [buildRequest_go (newEventSource_go u)]"
  by (simp add: NewEventSource_go_def newEventSource_go_def connectOnce_go_def doHTTPConnect_def
        setReadyState_go_def log_go_def closeWith_go_def Close_go_def acquireClosingRight_go_def
        releaseBody_go_def closeOut_go_def buildRequest_go_def split: option.splits)

subsection \<open>The Last-Event-ID header in the revision with the struct eventSource\<close>

text \<open>
  C5 does not hold of \<^verbatim>\<open>doHttpConnect\<close> in the revision with the struct \<^verbatim>\<open>eventSource\<close>,
  the one that has \<^verbatim>\<open>LastEventID()\<close>: its request sets \<^verbatim>\<open>Accept\<close> and \<^verbatim>\<open>Cache-Control\<close>
  and nothing else. The server answers the first GET with 200 and
  \<^verbatim>\<open>text/event-stream\<close>, sends the message with id 1 and data hello, and the stream
  breaks off; the next GET is refused. The constructor returns without error, the
  decode task delivers the message and stores the id 1, and the request of the
  reconnection that follows carries no \<^verbatim>\<open>Last-Event-ID\<close>.
\<close>

theorem reconnect_request_without_lastEventID:
  "returned (NewEventSource ''http://host/stream''
     [DoReturns (eventStream 200 [Inr (message ''1'' ''hello''), Inl ErrUnexpectedEOF])]) = Some None \<and>
   sent (out (run_state (consume
     (run_state (NewEventSource ''http://host/stream''
        [DoReturns (eventStream 200 [Inr (message ''1'' ''hello''), Inl ErrUnexpectedEOF])]))
     [DoFails None (OtherError ''connection refused'')]))) = [message ''1'' ''hello''] \<and>
   LastEventID (run_state (consume
     (run_state (NewEventSource ''http://host/stream''
        [DoReturns (eventStream 200 [Inr (message ''1'' ''hello''), Inl ErrUnexpectedEOF])]))
     [DoFails None (OtherError ''connection refused'')])) = ''1'' \<and>
   trace (run_state (consume
     (run_state (NewEventSource ''http://host/stream''
        [DoReturns (eventStream 200 [Inr (message ''1'' ''hello''), Inl ErrUnexpectedEOF])]))
     [DoFails None (OtherError ''connection refused'')])) =
     [HttpDo (buildRequest (newEventSource ''http://host/stream'')), GoConsume,
      Sleep defaultRetry,
      HttpDo (buildRequest (newEventSource ''http://host/stream'')),
      Sleep defaultRetry] \<and>
   ReqHeader (buildRequest (newEventSource ''http://host/stream'')) ''Last-Event-ID'' = None"
proof -
  let ?body = "[Inr (message ''1'' ''hello''), Inl ErrUnexpectedEOF]"
  let ?new = "NewEventSource ''http://host/stream'' [DoReturns (eventStream 200 ?body)]"
  let ?req = "HttpDo (buildRequest (newEventSource ''http://host/stream''))"
  let ?es1 = "\<lparr>url = ''http://host/stream'', d = Some ?body,
      resp = Some (eventStream 200 ?body),
      out = \<lparr>sent = [], closed = False\<rparr>, lastEventID = '''', readyState = Open,
      retry = defaultRetry, trace = [?req, GoConsume]\<rparr>"
  have n: "?new = Returns None ?es1"
    by (simp add: NewEventSource_def newEventSource_def connectOnce_def
        doHttpConnect_def eventStream_def Header_Get_def AllowedContentType_def setReadyState_def
        log_def buildRequest_def NewDecoder_def)
  let ?fin = "run_state (consume ?es1 [DoFails None (OtherError ''connection refused'')])"
  have f: "?fin = ?es1\<lparr>d := Some [], resp := None, lastEventID := ''1'',
      out := \<lparr>sent = [message ''1'' ''hello''], closed = False\<rparr>, readyState := Connecting,
      trace := [?req, GoConsume, Sleep defaultRetry, ?req, Sleep defaultRetry]\<rparr>"
    by (simp add: consume.simps Decode_def send_def setLastEventID_def message_def
          mustReconnect_def eventStream_def reconnect_def setReadyState_def log_def
          connectOnce_def doHttpConnect_def buildRequest_def newEventSource_def)
  have h: "ReqHeader (buildRequest (newEventSource ''http://host/stream'')) ''Last-Event-ID'' = None"
    by (simp add: buildRequest_def)
  show ?thesis
    unfolding n by (simp add: f LastEventID_def h)
qed

subsection \<open>The last event id in both revisions\<close>




text \<open>
  For comparison, the two revisions side by side: the request of \<^verbatim>\<open>doHttpConnect\<close> in
  the revision with the struct \<^verbatim>\<open>eventSource\<close> never carries \<^verbatim>\<open>Last-Event-ID\<close>; and
  \<^verbatim>\<open>connect\<close> of \<^verbatim>\<open>eventsource.go\<close> answers a content-type mismatch on the first attempt
  with one request, the content-type error and a closed source.
\<close>

lemma buildRequest_no_lastEventID: "ReqHeader (buildRequest es) ''Last-Event-ID'' = None"
  by (simp add: buildRequest_def)

lemma NewEventSource_go_content_type:
  assumes "Header_Get (Header r) ''Content-Type'' \<noteq> AllowedContentType"
  shows "returned (NewEventSource_go u (DoReturns r # as)) = Some (Some ErrContentType) \<and>
         EventSource.readyState (run_state (NewEventSource_go u (DoReturns r # as))) = Closed \<and>
         EventSource.trace (run_state (NewEventSource_go u (DoReturns r # as))) =
           [HttpDo (buildRequest_go (newEventSource_go u)), BodyClose r]"
  using assms
  by (simp add: NewEventSource_go_def newEventSource_go_def connectOnce_go_def doHTTPConnect_def
        setReadyState_go_def log_go_def closeWith_go_def Close_go_def acquireClosingRight_go_def
        releaseBody_go_def closeOut_go_def buildRequest_go_def)

end
